theory Spec2Isabelle
  imports Complex_Main
begin

section \<open>Configuration (config/settings.py)\<close>

text \<open>
  The constants of \<^verbatim>\<open>settings.py\<close> that the decision pipeline reads. Python's
  unbounded integers are \<open>int\<close>. A finite float is the real number it denotes; the
  float32 arithmetic of the code (rounding, overflow to infinity, \<open>nan\<close>) is written
  out in the data model below.
\<close>

definition ROAD_CLASSES :: "(string \<times> int) list" where
  "ROAD_CLASSES =
     [(''person'', 0), (''bicycle'', 1), (''car'', 2), (''motorcycle'', 3),
      (''bus'', 5), (''train'', 6), (''truck'', 7)]"

definition ROAD_CLASSES_values :: "int list" where
  "ROAD_CLASSES_values = map snd ROAD_CLASSES"

definition CONFIDENCE_THRESHOLD :: real where
  "CONFIDENCE_THRESHOLD = 5 / 10"

definition DEPTH_SAMPLE_SIZE :: int where
  "DEPTH_SAMPLE_SIZE = 10"

definition DEPTH_COLLISION_SAMPLE_SIZE :: int where
  "DEPTH_COLLISION_SAMPLE_SIZE = 5"

definition WARNING_THRESHOLD :: int where
  "WARNING_THRESHOLD = 3"

definition COLLISION_THRESHOLD :: int where
  "COLLISION_THRESHOLD = 600"

definition COLLISION_ALERT_THRESHOLD :: int where
  "COLLISION_ALERT_THRESHOLD = 2"

definition CLOSE_DEPTH_THRESHOLD :: int where
  "CLOSE_DEPTH_THRESHOLD = 1200"

definition GRID_COLS :: int where
  "GRID_COLS = 4"

definition GRID_ROWS :: int where
  "GRID_ROWS = 3"


section \<open>Data model\<close>

text \<open>The exceptions the pipeline can raise: a missing dictionary key, an array index
  outside the array, and \<^verbatim>\<open>int()\<close> of an infinite float or of \<^verbatim>\<open>nan\<close>.\<close>

datatype py_error = KeyError | IndexError | OverflowError | ValueError

text \<open>
  One YOLO box: \<^verbatim>\<open>box.xyxy[0]\<close> gives the four corner coordinates,
  \<^verbatim>\<open>box.conf[0]\<close> the confidence (finite float32 values) and \<^verbatim>\<open>int(box.cls[0])\<close> the
  class index.
\<close>

record box =
  x1 :: real
  y1 :: real
  x2 :: real
  y2 :: real
  conf :: real
  cls :: int

text \<open>
  \<^verbatim>\<open>results\<close> is a list of result objects; \<^verbatim>\<open>result.boxes\<close> is either
  \<^verbatim>\<open>None\<close> or a sequence of boxes.
\<close>

type_synonym results = "box list option list"

text \<open>All boxes of a results list, in iteration order.\<close>

definition detections_of :: "results \<Rightarrow> box list" where
  "detections_of rs = concat (map (\<lambda>r. case r of None \<Rightarrow> [] | Some bs \<Rightarrow> bs) rs)"

text \<open>
  A two-dimensional numpy array of float32 (what the depth model returns):
  \<^verbatim>\<open>shape[0]\<close> rows, \<^verbatim>\<open>shape[1]\<close> columns and the finite element stored at each
  (row, column).
\<close>

record ndarray =
  shape0 :: nat
  shape1 :: nat
  elems :: "nat \<Rightarrow> nat \<Rightarrow> real"

text \<open>
  \<^verbatim>\<open>a[i, j]\<close> with integer indices: an index \<open>i\<close> of an axis of length \<open>n\<close> is
  valid for \<open>-n \<le> i < n\<close>, a negative one counts from the end, anything else raises
  \<^verbatim>\<open>IndexError\<close>.
\<close>

definition np_axis_index :: "nat \<Rightarrow> int \<Rightarrow> py_error + nat" where
  "np_axis_index n i =
     (if 0 \<le> i \<and> i < int n then Inr (nat i)
      else if - int n \<le> i \<and> i < 0 then Inr (nat (i + int n))
      else Inl IndexError)"

definition ndarray_get :: "ndarray \<Rightarrow> int \<Rightarrow> int \<Rightarrow> py_error + real" where
  "ndarray_get a i j =
     (case np_axis_index (shape0 a) i of
        Inl e \<Rightarrow> Inl e
      | Inr r \<Rightarrow> (case np_axis_index (shape1 a) j of
                   Inl e \<Rightarrow> Inl e
                 | Inr c \<Rightarrow> Inr (elems a r c)))"


subsection \<open>float32 arithmetic\<close>

text \<open>The result of a float32 operation: a finite number, an infinity, or \<^verbatim>\<open>nan\<close>.\<close>

datatype np_float = Finite real | PosInf | NegInf | NaN

text \<open>The number of binary digits of a positive integer (0 for the others).\<close>

function bit_length :: "int \<Rightarrow> nat" where
  "bit_length n = (if n \<le> 0 then 0 else Suc (bit_length (n div 2)))"
  by pat_completeness auto
termination
  by (relation "measure nat") auto

declare bit_length.simps [simp del]

definition pow2 :: "int \<Rightarrow> real" where
  "pow2 e = (if 0 \<le> e then 2 ^ nat e else 1 / 2 ^ nat (- e))"

text \<open>The binary exponent of a positive number: the greatest \<open>e\<close> with \<open>2^e \<le> x\<close>.\<close>

definition floor_log2 :: "real \<Rightarrow> int" where
  "floor_log2 x =
     (if 1 \<le> x then int (bit_length \<lfloor>x\<rfloor>) - 1 else - int (bit_length (\<lceil>1 / x\<rceil> - 1)))"

text \<open>Rounding to the nearest integer, a tie going to the even one.\<close>

definition round_half_even :: "real \<Rightarrow> int" where
  "round_half_even q =
     (let f = \<lfloor>q\<rfloor>; d = q - of_int f in
      if d < 1 / 2 then f else if 1 / 2 < d then f + 1 else if even f then f else f + 1)"

text \<open>
  Rounding a real number to float32 with an unbounded exponent above: 24 significant
  binary digits, the exponent not below -126 (so that the numbers below \<open>2^-126\<close> are
  spaced by \<open>2^-149\<close>), ties to even.
\<close>

definition f32_round :: "real \<Rightarrow> real" where
  "f32_round x =
     (if x = 0 then 0
      else let e = max (floor_log2 \<bar>x\<bar>) (- 126); ulp = pow2 (e - 23)
           in of_int (round_half_even (x / ulp)) * ulp)"

text \<open>From this magnitude on, half a step above the greatest float32, a result is
  infinite.\<close>

definition F32_OVERFLOW :: real where
  "F32_OVERFLOW = 2 ^ 128 - 2 ^ 103"

text \<open>The float32 result of an operation whose exact result is \<open>x\<close>. numpy warns at
  an overflow and raises nothing.\<close>

definition f32 :: "real \<Rightarrow> np_float" where
  "f32 x = (if F32_OVERFLOW \<le> x then PosInf
            else if x \<le> - F32_OVERFLOW then NegInf
            else Finite (f32_round x))"

text \<open>\<^verbatim>\<open>v / 2\<close> on a float32 \<open>v\<close>.\<close>

fun f32_half :: "np_float \<Rightarrow> np_float" where
  "f32_half (Finite v) = f32 (v / 2)"
| "f32_half PosInf = PosInf"
| "f32_half NegInf = NegInf"
| "f32_half NaN = NaN"

text \<open>\<^verbatim>\<open>(a + b) / 2\<close> on two finite float32 values: the sum is rounded to float32,
  then halved. This is the box centre of both detection loops, and the mean that
  \<^verbatim>\<open>np.median\<close> takes of two float32 values.\<close>

definition half_sum :: "real \<Rightarrow> real \<Rightarrow> np_float" where
  "half_sum a b = f32_half (f32 (a + b))"

text \<open>
  \<^verbatim>\<open>v > t\<close> and \<^verbatim>\<open>v < t\<close> of a float32 \<open>v\<close> against a Python number \<open>t\<close>, taken
  exactly: the thresholds are integers, and half a frame width is a float32 value for
  every width below \<open>2^24\<close>. Every comparison with \<^verbatim>\<open>nan\<close> is false.
\<close>

fun np_gt :: "np_float \<Rightarrow> real \<Rightarrow> bool" where
  "np_gt (Finite v) t = (t < v)"
| "np_gt PosInf t = True"
| "np_gt NegInf t = False"
| "np_gt NaN t = False"

fun np_lt :: "np_float \<Rightarrow> real \<Rightarrow> bool" where
  "np_lt (Finite v) t = (v < t)"
| "np_lt PosInf t = False"
| "np_lt NegInf t = True"
| "np_lt NaN t = False"

text \<open>Truncation towards zero.\<close>

definition py_trunc :: "real \<Rightarrow> int" where
  "py_trunc x = (if 0 \<le> x then \<lfloor>x\<rfloor> else \<lceil>x\<rceil>)"

text \<open>\<^verbatim>\<open>int(v)\<close> on a float: truncation towards zero; \<^verbatim>\<open>OverflowError\<close> for an
  infinity and \<^verbatim>\<open>ValueError\<close> for \<^verbatim>\<open>nan\<close>.\<close>

fun py_int :: "np_float \<Rightarrow> py_error + int" where
  "py_int (Finite v) = Inr (py_trunc v)"
| "py_int PosInf = Inl OverflowError"
| "py_int NegInf = Inl OverflowError"
| "py_int NaN = Inl ValueError"

text \<open>
  \<^verbatim>\<open>np.median\<close> of a list of float32 values: the middle element of the sorted
  values; for an even count the float32 mean of the two middle elements;
  \<^verbatim>\<open>nan\<close> (with a warning, no exception) for an empty list.
\<close>

definition np_median :: "real list \<Rightarrow> np_float" where
  "np_median xs =
     (let s = sort xs; n = length s in
      if n = 0 then NaN
      else if odd n then Finite (s ! (n div 2))
      else half_sum (s ! (n div 2 - 1)) (s ! (n div 2)))"

text \<open>\<^verbatim>\<open>range(start, stop, step)\<close> for a positive step (the only kind used).\<close>

function py_range :: "int \<Rightarrow> int \<Rightarrow> int \<Rightarrow> int list" where
  "py_range start stop step =
     (if 0 < step \<and> start < stop then start # py_range (start + step) stop step else [])"
  by pat_completeness auto
termination
  by (relation "measure (\<lambda>(start, stop, step). nat (stop - start))") auto

declare py_range.simps [simp del]


section \<open>Depth sampling (models/depth\_estimator.py)\<close>

text \<open>
  The sampling loop, identical in \<^verbatim>\<open>get_depth_at_location\<close>,
  \<^verbatim>\<open>get_close_vehicles_by_side\<close> and \<^verbatim>\<open>check_collision_alert\<close>:
  \<^verbatim>\<open>
  for dx in range(-sample_size, sample_size, 2):
      for dy in range(-sample_size, sample_size, 2):
          sample_x = max(0, min(depth_map.shape[1]-1, center_x + dx))
          sample_y = max(0, min(depth_map.shape[0]-1, center_y + dy))
          depth_values.append(depth_map[sample_y, sample_x])
  \<close>
\<close>

definition sample_x :: "ndarray \<Rightarrow> int \<Rightarrow> int \<Rightarrow> int" where
  "sample_x depth_map center_x dx = max 0 (min (int (shape1 depth_map) - 1) (center_x + dx))"

definition sample_y :: "ndarray \<Rightarrow> int \<Rightarrow> int \<Rightarrow> int" where
  "sample_y depth_map center_y dy = max 0 (min (int (shape0 depth_map) - 1) (center_y + dy))"

text \<open>The (dx, dy) pairs in the order the nested loops visit them.\<close>

definition sample_offsets :: "int \<Rightarrow> (int \<times> int) list" where
  "sample_offsets sample_size =
     List.product (py_range (- sample_size) sample_size 2) (py_range (- sample_size) sample_size 2)"

fun sample_loop ::
  "ndarray \<Rightarrow> int \<Rightarrow> int \<Rightarrow> (int \<times> int) list \<Rightarrow> real list \<Rightarrow> py_error + real list" where
  "sample_loop depth_map center_x center_y [] depth_values = Inr depth_values"
| "sample_loop depth_map center_x center_y ((dx, dy) # rest) depth_values =
     (case ndarray_get depth_map (sample_y depth_map center_y dy) (sample_x depth_map center_x dx) of
        Inl e \<Rightarrow> Inl e
      | Inr v \<Rightarrow> sample_loop depth_map center_x center_y rest (depth_values @ [v]))"

definition sample_depth_values :: "ndarray \<Rightarrow> int \<Rightarrow> int \<Rightarrow> int \<Rightarrow> py_error + real list" where
  "sample_depth_values depth_map center_x center_y sample_size =
     sample_loop depth_map center_x center_y (sample_offsets sample_size) []"

definition get_depth_at_location :: "ndarray \<Rightarrow> int \<Rightarrow> int \<Rightarrow> int \<Rightarrow> py_error + np_float" where
  "get_depth_at_location depth_map center_x center_y sample_size =
     (case sample_depth_values depth_map center_x center_y sample_size of
        Inl e \<Rightarrow> Inl e
      | Inr depth_values \<Rightarrow> Inr (np_median depth_values))"


section \<open>Region of interest (utils/roi\_manager.py)\<close>

definition get_roi_coordinates :: "int \<Rightarrow> int \<Rightarrow> int \<times> int \<times> int \<times> int" where
  "get_roi_coordinates frame_width frame_height =
     (let grid_width = frame_width div GRID_COLS;
          grid_height = frame_height div GRID_ROWS;
          roi_top = frame_height - grid_height;
          roi_bottom = frame_height;
          roi_left = grid_width;
          roi_right = 3 * grid_width
      in (roi_left, roi_top, roi_right, roi_bottom))"

definition is_in_collision_roi :: "real \<Rightarrow> real \<Rightarrow> real \<Rightarrow> real \<Rightarrow> int \<Rightarrow> int \<Rightarrow> bool" where
  "is_in_collision_roi bx1 by1 bx2 by2 frame_width frame_height =
     (let grid_width = frame_width div GRID_COLS;
          grid_height = frame_height div GRID_ROWS;
          roi_top = frame_height - grid_height;
          roi_bottom = frame_height;
          roi_left = grid_width;
          roi_right = 3 * grid_width
      in \<not> (bx2 < of_int roi_left \<or> bx1 > of_int roi_right
             \<or> by2 < of_int roi_top \<or> by1 > of_int roi_bottom))"

text \<open>
  The body of the inner loop of \<^verbatim>\<open>check_collision_alert\<close> for the boxes of one
  result. The name lookup comes first and raises \<^verbatim>\<open>KeyError\<close> for an unknown class
  index; \<^verbatim>\<open>int((x1 + x2) / 2)\<close> takes the float32 centre and raises when it is
  infinite; \<^verbatim>\<open>break\<close> leaves this loop with \<^verbatim>\<open>collision_detected = True\<close>.
\<close>

fun collision_boxes ::
  "ndarray option \<Rightarrow> int \<Rightarrow> int \<Rightarrow> (int \<rightharpoonup> string) \<Rightarrow> box list \<Rightarrow> bool \<Rightarrow> py_error + bool" where
  "collision_boxes depth_map frame_width frame_height class_names [] collision_detected =
     Inr collision_detected"
| "collision_boxes depth_map frame_width frame_height class_names (b # boxes) collision_detected =
     (case class_names (cls b) of
        None \<Rightarrow> Inl KeyError
      | Some class_name \<Rightarrow>
          if conf b > CONFIDENCE_THRESHOLD \<and> cls b \<in> set ROAD_CLASSES_values then
            if is_in_collision_roi (x1 b) (y1 b) (x2 b) (y2 b) frame_width frame_height then
              (case depth_map of
                 None \<Rightarrow>
                   collision_boxes depth_map frame_width frame_height class_names boxes
                     collision_detected
               | Some dm \<Rightarrow>
                   (case py_int (half_sum (x1 b) (x2 b)) of
                      Inl e \<Rightarrow> Inl e
                    | Inr center_x \<Rightarrow>
                        (case py_int (half_sum (y1 b) (y2 b)) of
                           Inl e \<Rightarrow> Inl e
                         | Inr center_y \<Rightarrow>
                             (case sample_depth_values dm center_x center_y
                                     DEPTH_COLLISION_SAMPLE_SIZE of
                                Inl e \<Rightarrow> Inl e
                              | Inr depth_values \<Rightarrow>
                                  if np_gt (np_median depth_values) (of_int COLLISION_THRESHOLD)
                                  then Inr True
                                  else collision_boxes depth_map frame_width frame_height
                                         class_names boxes collision_detected))))
            else collision_boxes depth_map frame_width frame_height class_names boxes
                   collision_detected
          else collision_boxes depth_map frame_width frame_height class_names boxes
                 collision_detected)"

text \<open>The outer loop over the results; a result without boxes is skipped.\<close>

fun collision_results ::
  "ndarray option \<Rightarrow> int \<Rightarrow> int \<Rightarrow> (int \<rightharpoonup> string) \<Rightarrow> results \<Rightarrow> bool \<Rightarrow> py_error + bool" where
  "collision_results depth_map frame_width frame_height class_names [] collision_detected =
     Inr collision_detected"
| "collision_results depth_map frame_width frame_height class_names (result # rest)
     collision_detected =
     (case result of
        None \<Rightarrow>
          collision_results depth_map frame_width frame_height class_names rest collision_detected
      | Some boxes \<Rightarrow>
          (case collision_boxes depth_map frame_width frame_height class_names boxes
                  collision_detected of
             Inl e \<Rightarrow> Inl e
           | Inr c \<Rightarrow> collision_results depth_map frame_width frame_height class_names rest c))"

definition check_collision_alert ::
  "results \<Rightarrow> ndarray option \<Rightarrow> int \<Rightarrow> int \<Rightarrow> (int \<rightharpoonup> string) \<Rightarrow> py_error + bool" where
  "check_collision_alert results depth_map frame_width frame_height class_names =
     collision_results depth_map frame_width frame_height class_names results False"


section \<open>Warning system (utils/warnings.py)\<close>

record WarningSystem =
  left_warning_frames :: int
  right_warning_frames :: int
  warning_threshold :: int
  collision_alert_frames :: int
  collision_alert_threshold :: int

text \<open>\<^verbatim>\<open>WarningSystem.__init__\<close>\<close>

definition init_WarningSystem :: WarningSystem where
  "init_WarningSystem =
     \<lparr> left_warning_frames = 0, right_warning_frames = 0,
       warning_threshold = WARNING_THRESHOLD,
       collision_alert_frames = 0,
       collision_alert_threshold = COLLISION_ALERT_THRESHOLD \<rparr>"

text \<open>A Python list is true exactly when it is not empty.\<close>

definition update_warning_persistence ::
  "WarningSystem \<Rightarrow> string list \<Rightarrow> string list \<Rightarrow> WarningSystem" where
  "update_warning_persistence self left_close_vehicles right_close_vehicles =
     (let s1 = (if left_close_vehicles \<noteq> []
                then self\<lparr>left_warning_frames := left_warning_frames self + 1\<rparr>
                else self\<lparr>left_warning_frames := 0\<rparr>)
      in if right_close_vehicles \<noteq> []
         then s1\<lparr>right_warning_frames := right_warning_frames s1 + 1\<rparr>
         else s1\<lparr>right_warning_frames := 0\<rparr>)"

definition update_collision_persistence :: "WarningSystem \<Rightarrow> bool \<Rightarrow> WarningSystem" where
  "update_collision_persistence self collision_detected =
     (if collision_detected
      then self\<lparr>collision_alert_frames := collision_alert_frames self + 1\<rparr>
      else self\<lparr>collision_alert_frames := 0\<rparr>)"

definition should_show_collision_alert :: "WarningSystem \<Rightarrow> bool" where
  "should_show_collision_alert self =
     (collision_alert_frames self \<ge> collision_alert_threshold self)"

text \<open>The two guards of \<^verbatim>\<open>draw_warnings\<close> that decide whether a side warning is drawn.\<close>

definition shows_left_warning :: "WarningSystem \<Rightarrow> bool" where
  "shows_left_warning self = (left_warning_frames self \<ge> warning_threshold self)"

definition shows_right_warning :: "WarningSystem \<Rightarrow> bool" where
  "shows_right_warning self = (right_warning_frames self \<ge> warning_threshold self)"

text \<open>A run of consecutive calls of \<^verbatim>\<open>update_warning_persistence\<close>, one per frame,
  each with that frame's pair of lists.\<close>

fun feed_warning :: "WarningSystem \<Rightarrow> (string list \<times> string list) list \<Rightarrow> WarningSystem" where
  "feed_warning self [] = self"
| "feed_warning self ((left_close_vehicles, right_close_vehicles) # frames) =
     feed_warning (update_warning_persistence self left_close_vehicles right_close_vehicles) frames"

text \<open>
  The body of the inner loop of \<^verbatim>\<open>get_close_vehicles_by_side\<close>; the state is the
  pair of lists built so far. The centre \<^verbatim>\<open>(x1 + x2) / 2\<close> is a float32 value, both
  where it is truncated for the sampling and where it decides the side.
\<close>

definition close_vehicles_box ::
  "ndarray option \<Rightarrow> int \<Rightarrow> (int \<rightharpoonup> string) \<Rightarrow> string list \<times> string list \<Rightarrow> box
     \<Rightarrow> py_error + (string list \<times> string list)" where
  "close_vehicles_box depth_map frame_width class_names acc b =
     (case class_names (cls b) of
        None \<Rightarrow> Inl KeyError
      | Some class_name \<Rightarrow>
          if conf b > CONFIDENCE_THRESHOLD \<and> cls b \<in> set ROAD_CLASSES_values then
            (case (case depth_map of
                     None \<Rightarrow> Inr False
                   | Some dm \<Rightarrow>
                       (case py_int (half_sum (x1 b) (x2 b)) of
                          Inl e \<Rightarrow> Inl e
                        | Inr center_x \<Rightarrow>
                            (case py_int (half_sum (y1 b) (y2 b)) of
                               Inl e \<Rightarrow> Inl e
                             | Inr center_y \<Rightarrow>
                                 (case sample_depth_values dm center_x center_y 5 of
                                    Inl e \<Rightarrow> Inl e
                                  | Inr depth_values \<Rightarrow>
                                      Inr (np_gt (np_median depth_values)
                                             (of_int CLOSE_DEPTH_THRESHOLD)))))) of
               Inl e \<Rightarrow> Inl e
             | Inr is_close \<Rightarrow>
                 if is_close then
                   (let center_x = half_sum (x1 b) (x2 b) in
                    if np_lt center_x (of_int frame_width / 2)
                    then Inr (fst acc @ [class_name], snd acc)
                    else Inr (fst acc, snd acc @ [class_name]))
                 else Inr acc)
          else Inr acc)"

fun close_vehicles_boxes ::
  "ndarray option \<Rightarrow> int \<Rightarrow> (int \<rightharpoonup> string) \<Rightarrow> box list \<Rightarrow> string list \<times> string list
     \<Rightarrow> py_error + (string list \<times> string list)" where
  "close_vehicles_boxes depth_map frame_width class_names [] acc = Inr acc"
| "close_vehicles_boxes depth_map frame_width class_names (b # boxes) acc =
     (case close_vehicles_box depth_map frame_width class_names acc b of
        Inl e \<Rightarrow> Inl e
      | Inr acc' \<Rightarrow> close_vehicles_boxes depth_map frame_width class_names boxes acc')"

fun close_vehicles_results ::
  "ndarray option \<Rightarrow> int \<Rightarrow> (int \<rightharpoonup> string) \<Rightarrow> results \<Rightarrow> string list \<times> string list
     \<Rightarrow> py_error + (string list \<times> string list)" where
  "close_vehicles_results depth_map frame_width class_names [] acc = Inr acc"
| "close_vehicles_results depth_map frame_width class_names (result # rest) acc =
     (case result of
        None \<Rightarrow> close_vehicles_results depth_map frame_width class_names rest acc
      | Some boxes \<Rightarrow>
          (case close_vehicles_boxes depth_map frame_width class_names boxes acc of
             Inl e \<Rightarrow> Inl e
           | Inr acc' \<Rightarrow> close_vehicles_results depth_map frame_width class_names rest acc'))"

definition get_close_vehicles_by_side ::
  "results \<Rightarrow> ndarray option \<Rightarrow> int \<Rightarrow> (int \<rightharpoonup> string)
     \<Rightarrow> py_error + (string list \<times> string list)" where
  "get_close_vehicles_by_side results depth_map frame_width class_names =
     close_vehicles_results depth_map frame_width class_names results ([], [])"


section \<open>Frame pipeline (models/detector.py)\<close>

text \<open>
  The decision part of \<^verbatim>\<open>_process_frame\<close>. The YOLO results, the depth map
  (\<^verbatim>\<open>None\<close> when depth is off) and the frame's shape are the outputs of the external
  models; the state is the warning system. An exception leaves the function before
  it returns.
\<close>

definition process_frame ::
  "(int \<rightharpoonup> string) \<Rightarrow> WarningSystem \<Rightarrow> results \<Rightarrow> ndarray option \<Rightarrow> int \<Rightarrow> int
     \<Rightarrow> py_error + WarningSystem" where
  "process_frame class_names warning_system results depth_map frame_width frame_height =
     (case get_close_vehicles_by_side results depth_map frame_width class_names of
        Inl e \<Rightarrow> Inl e
      | Inr (left_close_vehicles, right_close_vehicles) \<Rightarrow>
          (let ws1 = update_warning_persistence warning_system
                       left_close_vehicles right_close_vehicles
           in case (case depth_map of
                      None \<Rightarrow> Inr False
                    | Some dm \<Rightarrow>
                        check_collision_alert results depth_map frame_width frame_height
                          class_names) of
                Inl e \<Rightarrow> Inl e
              | Inr collision_detected \<Rightarrow>
                  Inr (update_collision_persistence ws1 collision_detected)))"


section \<open>Notions of the specification\<close>

text \<open>
  The definitions of this section follow the words of the specification and of its
  claims, not the code; the theorems below compare the code with them.
\<close>

text \<open>A detection counts only with confidence above the threshold and a road class.\<close>

definition spec_road_relevant :: "box \<Rightarrow> bool" where
  "spec_road_relevant b = (CONFIDENCE_THRESHOLD < conf b \<and> cls b \<in> snd ` set ROAD_CLASSES)"

text \<open>Every detection's class index is a key of \<^verbatim>\<open>class_names\<close>.\<close>

definition spec_known_classes :: "(int \<rightharpoonup> string) \<Rightarrow> results \<Rightarrow> bool" where
  "spec_known_classes class_names rs = (\<forall>b \<in> set (detections_of rs). cls b \<in> dom class_names)"

text \<open>A depth map with at least one row and one column.\<close>

definition spec_nonempty :: "ndarray \<Rightarrow> bool" where
  "spec_nonempty depth_map = (0 < shape0 depth_map \<and> 0 < shape1 depth_map)"

text \<open>The offsets of a window of the given radius: from \<open>-radius\<close> up to, not
  including, \<open>radius\<close>, in steps of 2.\<close>

definition spec_offsets :: "int \<Rightarrow> int list" where
  "spec_offsets radius = map (\<lambda>k. - radius + 2 * int k) [0..<nat radius]"

text \<open>Clamping a coordinate into the index range of an axis of length \<open>n\<close>.\<close>

definition spec_clamp :: "nat \<Rightarrow> int \<Rightarrow> nat" where
  "spec_clamp n i = nat (max 0 (min (int n - 1) i))"

definition spec_samples :: "ndarray \<Rightarrow> int \<Rightarrow> int \<Rightarrow> int \<Rightarrow> real list" where
  "spec_samples depth_map center_x center_y radius =
     concat (map (\<lambda>dx. map (\<lambda>dy. elems depth_map (spec_clamp (shape0 depth_map) (center_y + dy))
                                              (spec_clamp (shape1 depth_map) (center_x + dx)))
                          (spec_offsets radius))
                 (spec_offsets radius))"

text \<open>
  The median, by counting: \<open>v\<close> is the element number \<open>k\<close> (from 0) in order of size
  when it is one of the values, at most \<open>k\<close> values are smaller and more than \<open>k\<close>
  values are not greater.
\<close>

definition spec_kth :: "real list \<Rightarrow> nat \<Rightarrow> real \<Rightarrow> bool" where
  "spec_kth xs k v =
     (v \<in> set xs \<and> length (filter (\<lambda>x. x < v) xs) \<le> k \<and> k < length (filter (\<lambda>x. x \<le> v) xs))"

text \<open>\<open>m\<close> is the median: the middle value of an odd number of values, the mean of the
  two middle values of an even number.\<close>

definition spec_median_is :: "real list \<Rightarrow> real \<Rightarrow> bool" where
  "spec_median_is xs m =
     (if odd (length xs) then spec_kth xs (length xs div 2) m
      else \<exists>lo \<in> set xs. \<exists>hi \<in> set xs.
             spec_kth xs (length xs div 2 - 1) lo \<and> spec_kth xs (length xs div 2) hi
             \<and> m = (lo + hi) / 2)"

text \<open>The median of the values exceeds \<open>t\<close>.\<close>

definition spec_median_above :: "real list \<Rightarrow> real \<Rightarrow> bool" where
  "spec_median_above xs t =
     (if odd (length xs) then \<exists>m \<in> set xs. spec_kth xs (length xs div 2) m \<and> t < m
      else \<exists>lo \<in> set xs. \<exists>hi \<in> set xs.
             spec_kth xs (length xs div 2 - 1) lo \<and> spec_kth xs (length xs div 2) hi
             \<and> t < (lo + hi) / 2)"

text \<open>
  The centre of a box as the claims word it, \<open>(x1 + x2) / 2\<close> and \<open>(y1 + y2) / 2\<close>
  as numbers, and the pixel it falls in.
\<close>

definition spec_exact_center :: "box \<Rightarrow> int \<times> int" where
  "spec_exact_center b = (py_trunc ((x1 b + x2 b) / 2), py_trunc ((y1 b + y2 b) / 2))"

text \<open>The median depth sampled around that pixel exceeds \<open>t\<close>.\<close>

definition spec_exact_depth_above :: "ndarray \<Rightarrow> box \<Rightarrow> int \<Rightarrow> real \<Rightarrow> bool" where
  "spec_exact_depth_above depth_map b radius t =
     (spec_nonempty depth_map
      \<and> spec_median_above
          (spec_samples depth_map (fst (spec_exact_center b)) (snd (spec_exact_center b)) radius) t)"

definition spec_exact_on_left :: "int \<Rightarrow> box \<Rightarrow> bool" where
  "spec_exact_on_left frame_width b = ((x1 b + x2 b) / 2 < of_int frame_width / 2)"

definition spec_exact_collides :: "ndarray \<Rightarrow> int \<Rightarrow> int \<Rightarrow> box \<Rightarrow> bool" where
  "spec_exact_collides depth_map frame_width frame_height b =
     (spec_road_relevant b
      \<and> is_in_collision_roi (x1 b) (y1 b) (x2 b) (y2 b) frame_width frame_height
      \<and> spec_exact_depth_above depth_map b DEPTH_COLLISION_SAMPLE_SIZE
          (of_int COLLISION_THRESHOLD))"

text \<open>
  The centre of a box in float32: each corner sum rounded to float32, then halved.
  It is finite unless a corner sum leaves the float32 range.
\<close>

fun is_finite :: "np_float \<Rightarrow> bool" where
  "is_finite (Finite v) = True"
| "is_finite PosInf = False"
| "is_finite NegInf = False"
| "is_finite NaN = False"

fun finite_value :: "np_float \<Rightarrow> real" where
  "finite_value (Finite v) = v"
| "finite_value PosInf = 0"
| "finite_value NegInf = 0"
| "finite_value NaN = 0"

definition spec_finite_center :: "box \<Rightarrow> bool" where
  "spec_finite_center b =
     (is_finite (half_sum (x1 b) (x2 b)) \<and> is_finite (half_sum (y1 b) (y2 b)))"

text \<open>The pixel the finite float32 centre falls in.\<close>

definition spec_center :: "box \<Rightarrow> int \<times> int" where
  "spec_center b =
     (py_trunc (finite_value (half_sum (x1 b) (x2 b))),
      py_trunc (finite_value (half_sum (y1 b) (y2 b))))"

text \<open>The depth map has pixels, and the median depth sampled around the pixel of the
  float32 centre exceeds \<open>t\<close>.\<close>

definition spec_depth_above :: "ndarray \<Rightarrow> box \<Rightarrow> int \<Rightarrow> real \<Rightarrow> bool" where
  "spec_depth_above depth_map b radius t =
     (spec_nonempty depth_map
      \<and> spec_median_above
          (spec_samples depth_map (fst (spec_center b)) (snd (spec_center b)) radius) t)"

text \<open>A box is close when it is road-relevant and its median depth (radius 5) exceeds
  \<^verbatim>\<open>CLOSE_DEPTH_THRESHOLD\<close>; it is on the left when its float32 centre lies left of
  the middle of the frame.\<close>

definition spec_close :: "ndarray \<Rightarrow> box \<Rightarrow> bool" where
  "spec_close depth_map b =
     (spec_road_relevant b \<and> spec_depth_above depth_map b 5 (of_int CLOSE_DEPTH_THRESHOLD))"

definition spec_on_left :: "int \<Rightarrow> box \<Rightarrow> bool" where
  "spec_on_left frame_width b = np_lt (half_sum (x1 b) (x2 b)) (of_int frame_width / 2)"

text \<open>A box signals a collision when it is road-relevant, meets the ROI and its median
  depth (radius \<^verbatim>\<open>DEPTH_COLLISION_SAMPLE_SIZE\<close>) exceeds \<^verbatim>\<open>COLLISION_THRESHOLD\<close>.\<close>

definition spec_collides :: "ndarray \<Rightarrow> int \<Rightarrow> int \<Rightarrow> box \<Rightarrow> bool" where
  "spec_collides depth_map frame_width frame_height b =
     (spec_road_relevant b
      \<and> is_in_collision_roi (x1 b) (y1 b) (x2 b) (y2 b) frame_width frame_height
      \<and> spec_depth_above depth_map b DEPTH_COLLISION_SAMPLE_SIZE (of_int COLLISION_THRESHOLD))"


section \<open>Example inputs\<close>

text \<open>A depth map of the size MiDaS produces, with the same depth everywhere.\<close>

definition flat_map :: "real \<Rightarrow> ndarray" where
  "flat_map v = \<lparr> shape0 = 384, shape1 = 384, elems = (\<lambda>r c. v) \<rparr>"

text \<open>Maps of 4 rows and 16 columns whose depth rises, or falls, by 1 from column to
  column.\<close>

definition rising_map :: "real \<Rightarrow> ndarray" where
  "rising_map v = \<lparr> shape0 = 4, shape1 = 16, elems = (\<lambda>r c. v + real c) \<rparr>"

definition falling_map :: "real \<Rightarrow> ndarray" where
  "falling_map v = \<lparr> shape0 = 4, shape1 = 16, elems = (\<lambda>r c. v - real c) \<rparr>"

text \<open>A map of one row: 1, then twice \<open>2^24\<close>.\<close>

definition step_map :: ndarray where
  "step_map = \<lparr> shape0 = 1, shape1 = 3, elems = (\<lambda>r c. if c = 0 then 1 else 16777216) \<rparr>"

text \<open>An array without rows or columns.\<close>

definition empty_map :: ndarray where
  "empty_map = \<lparr> shape0 = 0, shape1 = 0, elems = (\<lambda>r c. 0) \<rparr>"

text \<open>Two boxes in an 800 by 600 frame and a table of class names.\<close>

definition car_left :: box where
  "car_left = \<lparr> x1 = 300, y1 = 450, x2 = 380, y2 = 550, conf = 9 / 10, cls = 2 \<rparr>"

definition truck_right :: box where
  "truck_right = \<lparr> x1 = 500, y1 = 100, x2 = 700, y2 = 300, conf = 8 / 10, cls = 7 \<rparr>"

definition names_example :: "int \<rightharpoonup> string" where
  "names_example = [2 \<mapsto> ''car'', 7 \<mapsto> ''truck'', 16 \<mapsto> ''dog'']"

text \<open>Boxes that the filter drops: a car with confidence 0.4 and a dog; and boxes
  whose class index has no name in the table.\<close>

definition quiet_car :: box where
  "quiet_car = \<lparr> x1 = 300, y1 = 450, x2 = 380, y2 = 550, conf = 4 / 10, cls = 2 \<rparr>"

definition dog :: box where
  "dog = \<lparr> x1 = 300, y1 = 450, x2 = 380, y2 = 550, conf = 9 / 10, cls = 16 \<rparr>"

definition stray :: box where
  "stray = \<lparr> x1 = 300, y1 = 450, x2 = 380, y2 = 550, conf = 4 / 10, cls = 99 \<rparr>"

definition unlisted :: box where
  "unlisted = \<lparr> x1 = 300, y1 = 450, x2 = 380, y2 = 550, conf = 9 / 10, cls = 80 \<rparr>"

text \<open>
  Cars in a 16 by 12 frame whose left edge is the float32 just below 1. The corner
  sum \<open>x1 + x2\<close> lies just below 12, or 16, and is rounded up to it in float32.
\<close>

definition edge_car_11 :: box where
  "edge_car_11 =
     \<lparr> x1 = 16777215 / 16777216, y1 = 8, x2 = 11, y2 = 10, conf = 3 / 4, cls = 2 \<rparr>"

definition edge_car_15 :: box where
  "edge_car_15 =
     \<lparr> x1 = 16777215 / 16777216, y1 = 8, x2 = 15, y2 = 10, conf = 3 / 4, cls = 2 \<rparr>"

text \<open>A car whose corners lie near the end of the float32 range: the corner sum
  \<open>x1 + x2\<close> is \<open>2^128\<close>, infinite in float32.\<close>

definition far_car :: box where
  "far_car = \<lparr> x1 = 2 ^ 127, y1 = 450, x2 = 2 ^ 127, y2 = 550, conf = 3 / 4, cls = 2 \<rparr>"


section \<open>The sampling loop never leaves the map\<close>

lemma np_axis_index_in_range:
  "0 \<le> i \<Longrightarrow> i < int n \<Longrightarrow> np_axis_index n i = Inr (nat i)"
  by (simp add: np_axis_index_def)

lemma sample_x_in_range:
  "0 < shape1 dm \<Longrightarrow> 0 \<le> sample_x dm cx dx \<and> sample_x dm cx dx < int (shape1 dm)"
  by (auto simp: sample_x_def)

lemma sample_y_in_range:
  "0 < shape0 dm \<Longrightarrow> 0 \<le> sample_y dm cy dy \<and> sample_y dm cy dy < int (shape0 dm)"
  by (auto simp: sample_y_def)

lemma ndarray_get_sample:
  assumes "0 < shape0 dm" "0 < shape1 dm"
  shows "ndarray_get dm (sample_y dm cy dy) (sample_x dm cx dx)
           = Inr (elems dm (nat (sample_y dm cy dy)) (nat (sample_x dm cx dx)))"
  using sample_x_in_range[OF assms(2), of cx dx] sample_y_in_range[OF assms(1), of cy dy]
  by (simp add: ndarray_get_def np_axis_index_in_range)

lemma sample_loop_total:
  assumes "0 < shape0 dm" "0 < shape1 dm"
  shows "sample_loop dm cx cy offs acc
           = Inr (acc @ map (\<lambda>(dx, dy). elems dm (nat (sample_y dm cy dy)) (nat (sample_x dm cx dx))) offs)"
proof (induction offs arbitrary: acc)
  case Nil
  show ?case by simp
next
  case (Cons p offs)
  obtain dx dy where p: "p = (dx, dy)" by (cases p)
  show ?case
    by (simp add: p ndarray_get_sample[OF assms] Cons.IH)
qed

lemma py_range_closed:
  "step = 2 \<Longrightarrow> py_range start stop step
     = map (\<lambda>k. start + 2 * int k) [0..<nat ((stop - start + 1) div 2)]"
proof (induction start stop step rule: py_range.induct)
  case (1 start stop step)
  show ?case
  proof (cases "start < stop")
    case False
    then show ?thesis using 1(2) by (simp add: py_range.simps)
  next
    case True
    have n: "nat ((stop - start + 1) div 2) = Suc (nat ((stop - (start + 2) + 1) div 2))"
      using True by (simp add: nat_eq_iff) 
    have "py_range start stop step = start # py_range (start + 2) stop 2"
      using True 1(2) by (subst py_range.simps) simp
    also have "py_range (start + 2) stop 2
        = map (\<lambda>k. start + 2 + 2 * int k) [0..<nat ((stop - (start + 2) + 1) div 2)]"
      using 1(1) True 1(2) by simp
    finally show ?thesis
      unfolding n by (simp add: upt_conv_Cons map_Suc_upt[symmetric] del: upt_Suc)
  qed
qed

lemma map_product_concat:
  "map f (List.product xs ys) = concat (map (\<lambda>x. map (\<lambda>y. f (x, y)) ys) xs)"
  by (induction xs) simp_all

lemma py_range_spec_offsets: "py_range (- r) r 2 = spec_offsets r"
proof -
  have "nat ((r - - r + 1) div 2) = nat r" by (simp add: nat_eq_iff)
  then show ?thesis
    by (simp add: py_range_closed spec_offsets_def)
qed

lemma sample_depth_values_spec:
  assumes "0 < shape0 dm" "0 < shape1 dm"
  shows "sample_depth_values dm cx cy r = Inr (spec_samples dm cx cy r)"
proof -
  have "sample_depth_values dm cx cy r
      = Inr (map (\<lambda>(dx, dy). elems dm (nat (sample_y dm cy dy)) (nat (sample_x dm cx dx)))
               (List.product (spec_offsets r) (spec_offsets r)))"
    by (simp add: sample_depth_values_def sample_loop_total[OF assms] sample_offsets_def
        py_range_spec_offsets)
  also have "map (\<lambda>(dx, dy). elems dm (nat (sample_y dm cy dy)) (nat (sample_x dm cx dx)))
               (List.product (spec_offsets r) (spec_offsets r)) = spec_samples dm cx cy r"
    unfolding map_product_concat spec_samples_def spec_clamp_def sample_x_def sample_y_def
    by simp
  finally show ?thesis .
qed


section \<open>The median, by counting\<close>

lemma length_filter_sort: "length (filter P (sort xs)) = length (filter P xs)"
  by (simp add: filter_sort)

lemma sorted_count_less:
  assumes "sorted s" "k < length s"
  shows "length (filter (\<lambda>x. x < s ! k) s) \<le> k"
proof -
  have "{i. i < length s \<and> s ! i < s ! k} \<subseteq> {..<k}"
  proof
    fix i assume "i \<in> {i. i < length s \<and> s ! i < s ! k}"
    then have i: "i < length s" "s ! i < s ! k" by simp_all
    have "i < k"
    proof (rule ccontr)
      assume "\<not> i < k"
      then have "k \<le> i" by simp
      from sorted_nth_mono[OF assms(1) this i(1)] i(2) show False by simp
    qed
    then show "i \<in> {..<k}" by simp
  qed
  then have "card {i. i < length s \<and> s ! i < s ! k} \<le> card {..<k}"
    by (intro card_mono) simp_all
  then show ?thesis
    by (simp add: length_filter_conv_card)
qed

lemma sorted_count_le:
  assumes "sorted s" "k < length s"
  shows "k < length (filter (\<lambda>x. x \<le> s ! k) s)"
proof -
  have "{..k} \<subseteq> {i. i < length s \<and> s ! i \<le> s ! k}"
  proof
    fix i assume "i \<in> {..k}"
    then have "i \<le> k" by simp
    from sorted_nth_mono[OF assms(1) this assms(2)] assms(2) \<open>i \<le> k\<close>
    show "i \<in> {i. i < length s \<and> s ! i \<le> s ! k}" by simp
  qed
  then have "card {..k} \<le> card {i. i < length s \<and> s ! i \<le> s ! k}"
    by (intro card_mono) simp_all
  then show ?thesis
    by (simp add: length_filter_conv_card)
qed

lemma spec_kth_sort:
  assumes "k < length xs"
  shows "spec_kth xs k (sort xs ! k)"
proof -
  have k: "k < length (sort xs)" using assms by simp
  have m: "sort xs ! k \<in> set xs"
    using nth_mem[OF k] by simp
  have a: "length (filter (\<lambda>x. x < sort xs ! k) xs) \<le> k"
    using sorted_count_less[OF sorted_sort k, of] by (simp add: length_filter_sort)
  have b: "k < length (filter (\<lambda>x. x \<le> sort xs ! k) xs)"
    using sorted_count_le[OF sorted_sort k] by (simp add: length_filter_sort)
  from m a b show ?thesis by (simp add: spec_kth_def)
qed

lemma length_filter_mono:
  "(\<And>x. P x \<Longrightarrow> Q x) \<Longrightarrow> length (filter P xs) \<le> length (filter Q xs)"
  by (induction xs) auto

lemma spec_kth_unique:
  assumes "spec_kth xs k v" "spec_kth xs k w"
  shows "v = w"
proof -
  have no: "\<not> a < b" if "spec_kth xs k a" "spec_kth xs k b" for a b
  proof
    assume "a < b"
    then have "length (filter (\<lambda>x. x \<le> a) xs) \<le> length (filter (\<lambda>x. x < b) xs)"
      by (intro length_filter_mono) simp
    with that show False by (simp add: spec_kth_def)
  qed
  from no[OF assms] no[OF assms(2,1)] show ?thesis by simp
qed

lemma np_median_empty: "np_median [] = NaN"
  by (simp add: np_median_def)

lemma sort_Nil_iff: "(sort xs = []) = (xs = [])"
  using length_sort[of "\<lambda>x. x" xs] by (metis length_0_conv)

lemma np_median_odd:
  assumes "odd (length xs)"
  shows "np_median xs = Finite (sort xs ! (length xs div 2))"
  using assms by (auto simp add: np_median_def Let_def sort_Nil_iff)

lemma np_median_even:
  assumes "even (length xs)" "xs \<noteq> []"
  shows "np_median xs
           = half_sum (sort xs ! (length xs div 2 - 1)) (sort xs ! (length xs div 2))"
  using assms by (simp add: np_median_def Let_def sort_Nil_iff)

lemma odd_middle: "odd (n::nat) \<Longrightarrow> n div 2 < n"
  by (cases n) auto

lemma np_median_odd_is:
  assumes "odd (length xs)"
  shows "\<exists>m. np_median xs = Finite m \<and> spec_median_is xs m"
  using assms spec_kth_sort[OF odd_middle[OF assms]]
  by (simp add: np_median_odd spec_median_is_def)

lemma np_median_even_is:
  assumes "even (length xs)" "xs \<noteq> []"
  shows "\<exists>lo hi. spec_kth xs (length xs div 2 - 1) lo \<and> spec_kth xs (length xs div 2) hi
           \<and> np_median xs = half_sum lo hi"
proof -
  have n: "0 < length xs" using assms(2) by simp
  have a: "length xs div 2 - 1 < length xs" using n by arith
  have b: "length xs div 2 < length xs" using n by arith
  from spec_kth_sort[OF a] spec_kth_sort[OF b] np_median_even[OF assms]
  show ?thesis by blast
qed

lemma np_gt_median_odd:
  assumes "odd (length xs)"
  shows "np_gt (np_median xs) t = spec_median_above xs t"
proof -
  let ?m = "sort xs ! (length xs div 2)"
  have k: "spec_kth xs (length xs div 2) ?m"
    by (rule spec_kth_sort[OF odd_middle[OF assms]])
  have "spec_median_above xs t = (t < ?m)"
  proof
    assume "spec_median_above xs t"
    then obtain m where "spec_kth xs (length xs div 2) m" "t < m"
      using assms by (auto simp add: spec_median_above_def)
    with spec_kth_unique[OF k] show "t < ?m" by auto
  next
    assume "t < ?m"
    with k show "spec_median_above xs t"
      using assms by (auto simp add: spec_median_above_def spec_kth_def)
  qed
  then show ?thesis by (simp add: np_median_odd[OF assms])
qed

lemma length_spec_samples: "length (spec_samples dm cx cy r) = nat r * nat r"
  by (simp add: spec_samples_def spec_offsets_def length_concat comp_def sum_list_triv)

lemma odd_samples_5: "odd (length (spec_samples dm cx cy 5))"
  by (simp add: length_spec_samples)


section \<open>float32 rounding and truncation\<close>

lemma bit_length_pos: "0 < n \<Longrightarrow> 0 < bit_length n"
  by (subst bit_length.simps) simp

lemma bit_length_bounds:
  "0 < n \<Longrightarrow> 2 ^ (bit_length n - 1) \<le> n \<and> n < 2 ^ bit_length n"
proof (induction n rule: bit_length.induct)
  case (1 n)
  show ?case
  proof (cases "n div 2 = 0")
    case True
    with 1(2) have n: "n = 1" by presburger
    have "bit_length 1 = 1"
      by (simp add: bit_length.simps)
    then show ?thesis by (simp add: n)
  next
    case False
    with 1(2) have p: "0 < n div 2" by presburger
    from 1(1)[OF _ p] 1(2) have ih: "2 ^ (bit_length (n div 2) - 1) \<le> n div 2"
      "n div 2 < 2 ^ bit_length (n div 2)" by simp_all
    let ?k = "bit_length (n div 2)"
    have k: "0 < ?k" by (rule bit_length_pos[OF p])
    have bl: "bit_length n = Suc ?k"
      using 1(2) by (subst bit_length.simps) simp
    have "(2::int) ^ ?k = 2 * 2 ^ (?k - 1)"
      using k by (cases ?k) simp_all
    with ih(1) have lo: "2 ^ ?k \<le> n" by presburger
    from ih(2) have hi: "n < 2 * 2 ^ ?k" by presburger
    from lo hi show ?thesis by (simp add: bl)
  qed
qed

lemma pow2_pos: "0 < pow2 e"
  by (simp add: pow2_def)

lemma pow2_neg: "pow2 (- int n) = 1 / 2 ^ n"
  by (cases "n = 0") (simp_all add: pow2_def)

text \<open>\<open>floor_log2\<close> is the binary exponent.\<close>

lemma floor_log2_bounds:
  assumes "0 < x"
  shows "pow2 (floor_log2 x) \<le> x" and "x < pow2 (floor_log2 x + 1)"
proof -
  show "pow2 (floor_log2 x) \<le> x"
  proof (cases "1 \<le> x")
    case True
    then have p: "0 < \<lfloor>x\<rfloor>" by simp
    note b = bit_length_bounds[OF p]
    have "0 < bit_length \<lfloor>x\<rfloor>" by (rule bit_length_pos[OF p])
    then have "pow2 (floor_log2 x) = 2 ^ (bit_length \<lfloor>x\<rfloor> - 1)"
      using True by (simp add: floor_log2_def pow2_def nat_diff_distrib')
    also have "\<dots> = of_int (2 ^ (bit_length \<lfloor>x\<rfloor> - 1))" by simp
    also have "\<dots> \<le> of_int \<lfloor>x\<rfloor>" using b by (simp only: of_int_le_iff)
    also have "\<dots> \<le> x" by simp
    finally show ?thesis .
  next
    case False
    let ?m = "\<lceil>1 / x\<rceil> - 1"
    from False assms have "1 < 1 / x" by simp
    then have p: "0 < ?m" by linarith
    note b = bit_length_bounds[OF p]
    have "1 / x \<le> of_int (?m + 1)" by simp
    also have "\<dots> \<le> of_int (2 ^ bit_length ?m)"
      using b by (simp only: of_int_le_iff) simp
    finally have "1 / x \<le> 2 ^ bit_length ?m" by simp
    then have "1 / 2 ^ bit_length ?m \<le> x"
      using assms by (simp add: field_simps)
    then show ?thesis
      using False bit_length_pos[OF p] by (simp add: floor_log2_def pow2_def)
  qed
  show "x < pow2 (floor_log2 x + 1)"
  proof (cases "1 \<le> x")
    case True
    then have p: "0 < \<lfloor>x\<rfloor>" by simp
    note b = bit_length_bounds[OF p]
    have "x < of_int (\<lfloor>x\<rfloor> + 1)" by linarith
    also have "\<dots> \<le> of_int (2 ^ bit_length \<lfloor>x\<rfloor>)"
      using b by (simp only: of_int_le_iff) simp
    finally have "x < 2 ^ bit_length \<lfloor>x\<rfloor>" by simp
    then show ?thesis
      using True by (simp add: floor_log2_def pow2_def)
  next
    case False
    let ?m = "\<lceil>1 / x\<rceil> - 1"
    let ?k = "bit_length ?m"
    from False assms have "1 < 1 / x" by simp
    then have p: "0 < ?m" by linarith
    note b = bit_length_bounds[OF p]
    have k: "0 < ?k" by (rule bit_length_pos[OF p])
    have "(2::real) ^ (?k - 1) = of_int (2 ^ (?k - 1))" by simp
    also have "\<dots> \<le> of_int ?m" using b by (simp only: of_int_le_iff)
    also have "\<dots> < 1 / x" by linarith
    finally have "x < 1 / 2 ^ (?k - 1)"
      using assms by (simp add: field_simps)
    moreover have "pow2 (floor_log2 x + 1) = 1 / 2 ^ (?k - 1)"
    proof -
      have "floor_log2 x + 1 = - int (?k - 1)"
        using False k by (simp add: floor_log2_def)
      then have "pow2 (floor_log2 x + 1) = pow2 (- int (?k - 1))" by simp
      also have "\<dots> = 1 / 2 ^ (?k - 1)"
        by (rule pow2_neg)
      finally show ?thesis .
    qed
    ultimately show ?thesis by simp
  qed
qed

lemma round_half_even_near: "\<bar>of_int (round_half_even q) - q\<bar> \<le> 1 / 2"
  unfolding round_half_even_def Let_def by (auto; linarith)

text \<open>The rounded value lies on the float32 grid of its binade and is as near as the
  grid allows.\<close>

lemma f32_round_near:
  "\<bar>f32_round x - x\<bar> \<le> pow2 (max (floor_log2 \<bar>x\<bar>) (- 126) - 23) / 2"
proof (cases "x = 0")
  case True
  then show ?thesis using pow2_pos[of "max (floor_log2 \<bar>x\<bar>) (- 126) - 23"]
    by (simp add: f32_round_def)
next
  case False
  let ?u = "pow2 (max (floor_log2 \<bar>x\<bar>) (- 126) - 23)"
  have u: "0 < ?u" by (rule pow2_pos)
  have "f32_round x - x = (of_int (round_half_even (x / ?u)) - x / ?u) * ?u"
    using False u by (simp add: f32_round_def Let_def field_simps)
  then have "\<bar>f32_round x - x\<bar> = \<bar>of_int (round_half_even (x / ?u)) - x / ?u\<bar> * ?u"
    using u by (simp add: abs_mult)
  also have "\<dots> \<le> (1 / 2) * ?u"
    using round_half_even_near[of "x / ?u"] u by (intro mult_right_mono) simp_all
  finally show ?thesis by simp
qed

text \<open>\<^verbatim>\<open>int()\<close> truncates towards zero.\<close>

lemma py_trunc_toward_zero:
  "\<bar>of_int (py_trunc x)\<bar> \<le> \<bar>x\<bar> \<and> \<bar>x - of_int (py_trunc x)\<bar> < 1"
  unfolding py_trunc_def by (auto; linarith)


section \<open>The two detection loops\<close>

lemma road_values: "set ROAD_CLASSES_values = snd ` set ROAD_CLASSES"
  by (simp add: ROAD_CLASSES_values_def)

lemma py_int_finite: "is_finite v \<Longrightarrow> py_int v = Inr (py_trunc (finite_value v))"
  by (cases v) simp_all

lemma center_of_finite:
  assumes "spec_finite_center b"
  shows "py_int (half_sum (x1 b) (x2 b)) = Inr (fst (spec_center b))"
    and "py_int (half_sum (y1 b) (y2 b)) = Inr (snd (spec_center b))"
  using assms by (simp_all add: spec_finite_center_def spec_center_def py_int_finite)

lemma sample_offsets_5:
  "sample_offsets 5 =
     [(-5,-5),(-5,-3),(-5,-1),(-5,1),(-5,3),
      (-3,-5),(-3,-3),(-3,-1),(-3,1),(-3,3),
      (-1,-5),(-1,-3),(-1,-1),(-1,1),(-1,3),
      (1,-5),(1,-3),(1,-1),(1,1),(1,3),
      (3,-5),(3,-3),(3,-1),(3,1),(3,3)]"
  by (simp add: sample_offsets_def py_range.simps)

lemma ndarray_get_empty:
  assumes "shape0 dm = 0 \<or> shape1 dm = 0"
  shows "ndarray_get dm (sample_y dm cy dy) (sample_x dm cx dx) = Inl IndexError"
proof (cases "shape0 dm = 0")
  case True
  then show ?thesis
    by (simp add: ndarray_get_def np_axis_index_def sample_y_def)
next
  case False
  with assms have c: "shape1 dm = 0" by simp
  have "np_axis_index (shape1 dm) (sample_x dm cx dx) = Inl IndexError"
    by (simp add: np_axis_index_def sample_x_def c)
  moreover have "np_axis_index (shape0 dm) (sample_y dm cy dy)
                   = Inr (nat (sample_y dm cy dy))"
    using sample_y_in_range[of dm cy dy] False by (simp add: np_axis_index_in_range)
  ultimately show ?thesis
    by (simp add: ndarray_get_def)
qed

lemma sample_depth_values_empty_map:
  assumes "shape0 dm = 0 \<or> shape1 dm = 0"
  shows "sample_depth_values dm cx cy 5 = Inl IndexError"
  by (simp add: sample_depth_values_def sample_offsets_5 ndarray_get_empty[OF assms])

lemma depth_test_spec:
  assumes "0 < shape0 dm" "0 < shape1 dm"
  shows "(case sample_depth_values dm (fst (spec_center b)) (snd (spec_center b)) 5 of
            Inl e \<Rightarrow> Inl e
          | Inr depth_values \<Rightarrow> Inr (np_gt (np_median depth_values) t))
         = Inr (spec_depth_above dm b 5 t)"
  using assms
  by (simp add: sample_depth_values_spec[OF assms] np_gt_median_odd[OF odd_samples_5]
      spec_depth_above_def spec_nonempty_def)

lemma close_vehicles_box_depth:
  assumes "cls b \<in> dom class_names" "0 < shape0 dm" "0 < shape1 dm"
    and "spec_road_relevant b \<Longrightarrow> spec_finite_center b"
  shows "close_vehicles_box (Some dm) fw class_names acc b =
           Inr (if spec_close dm b
                then (if spec_on_left fw b then (fst acc @ [the (class_names (cls b))], snd acc)
                      else (fst acc, snd acc @ [the (class_names (cls b))]))
                else acc)"
proof -
  from assms(1) obtain nm where nm: "class_names (cls b) = Some nm" by auto
  show ?thesis
  proof (cases "spec_road_relevant b")
    case False
    then have off: "\<not> (conf b > CONFIDENCE_THRESHOLD \<and> cls b \<in> set ROAD_CLASSES_values)"
      by (simp add: spec_road_relevant_def road_values)
    from False show ?thesis
      by (simp add: close_vehicles_box_def nm off spec_close_def)
  next
    case True
    then have on: "conf b > CONFIDENCE_THRESHOLD \<and> cls b \<in> set ROAD_CLASSES_values"
      by (simp add: spec_road_relevant_def road_values)
    note c = center_of_finite[OF assms(4)[OF True]]
    show ?thesis
      by (simp add: close_vehicles_box_def nm on c depth_test_spec[OF assms(2,3)]
          spec_close_def True spec_on_left_def Let_def)
  qed
qed

lemma close_vehicles_box_no_depth:
  assumes "cls b \<in> dom class_names"
  shows "close_vehicles_box None fw class_names acc b = Inr acc"
  using assms by (auto simp add: close_vehicles_box_def)

lemma close_vehicles_boxes_depth:
  assumes "\<forall>b \<in> set bs. cls b \<in> dom class_names" "0 < shape0 dm" "0 < shape1 dm"
    and "\<forall>b \<in> set bs. spec_road_relevant b \<longrightarrow> spec_finite_center b"
  shows "close_vehicles_boxes (Some dm) fw class_names bs acc =
           Inr (fst acc @ map (\<lambda>b. the (class_names (cls b)))
                              (filter (\<lambda>b. spec_close dm b \<and> spec_on_left fw b) bs),
                snd acc @ map (\<lambda>b. the (class_names (cls b)))
                              (filter (\<lambda>b. spec_close dm b \<and> \<not> spec_on_left fw b) bs))"
  using assms(1,4)
proof (induction bs arbitrary: acc)
  case Nil
  show ?case by simp
next
  case (Cons b bs)
  have nm: "cls b \<in> dom class_names" using Cons.prems by simp
  have fin: "spec_road_relevant b \<Longrightarrow> spec_finite_center b" using Cons.prems by simp
  have rest: "\<forall>b \<in> set bs. cls b \<in> dom class_names"
    "\<forall>b \<in> set bs. spec_road_relevant b \<longrightarrow> spec_finite_center b"
    using Cons.prems by simp_all
  show ?case
    by (simp add: close_vehicles_box_depth[OF nm assms(2,3) fin] Cons.IH[OF rest])
qed

lemma close_vehicles_boxes_no_depth:
  assumes "\<forall>b \<in> set bs. cls b \<in> dom class_names"
  shows "close_vehicles_boxes None fw class_names bs acc = Inr acc"
  using assms
proof (induction bs arbitrary: acc)
  case Nil
  show ?case by simp
next
  case (Cons b bs)
  have nm: "cls b \<in> dom class_names" using Cons.prems by simp
  have rest: "\<forall>b \<in> set bs. cls b \<in> dom class_names" using Cons.prems by simp
  show ?case
    by (simp add: close_vehicles_box_no_depth[OF nm] Cons.IH[OF rest])
qed

lemma detections_of_Nil: "detections_of [] = []"
  by (simp add: detections_of_def)

lemma detections_of_None: "detections_of (None # rs) = detections_of rs"
  by (simp add: detections_of_def)

lemma detections_of_Some: "detections_of (Some bs # rs) = bs @ detections_of rs"
  by (simp add: detections_of_def)

lemma close_vehicles_results_depth:
  assumes "\<forall>b \<in> set (detections_of rs). cls b \<in> dom class_names"
    and "0 < shape0 dm" "0 < shape1 dm"
    and "\<forall>b \<in> set (detections_of rs). spec_road_relevant b \<longrightarrow> spec_finite_center b"
  shows "close_vehicles_results (Some dm) fw class_names rs acc =
           Inr (fst acc @ map (\<lambda>b. the (class_names (cls b)))
                              (filter (\<lambda>b. spec_close dm b \<and> spec_on_left fw b) (detections_of rs)),
                snd acc @ map (\<lambda>b. the (class_names (cls b)))
                              (filter (\<lambda>b. spec_close dm b \<and> \<not> spec_on_left fw b) (detections_of rs)))"
  using assms(1,4)
proof (induction rs arbitrary: acc)
  case Nil
  show ?case by (simp add: detections_of_Nil)
next
  case (Cons r rs)
  show ?case
  proof (cases r)
    case None
    with Cons show ?thesis by (simp add: detections_of_None)
  next
    case (Some bs)
    have bs: "\<forall>b \<in> set bs. cls b \<in> dom class_names"
      "\<forall>b \<in> set bs. spec_road_relevant b \<longrightarrow> spec_finite_center b"
      and rest: "\<forall>b \<in> set (detections_of rs). cls b \<in> dom class_names"
      "\<forall>b \<in> set (detections_of rs). spec_road_relevant b \<longrightarrow> spec_finite_center b"
      using Cons.prems by (simp_all add: Some detections_of_Some)
    show ?thesis
      by (simp add: Some detections_of_Some
          close_vehicles_boxes_depth[OF bs(1) assms(2,3) bs(2)] Cons.IH[OF rest])
  qed
qed

lemma close_vehicles_results_no_depth:
  assumes "\<forall>b \<in> set (detections_of rs). cls b \<in> dom class_names"
  shows "close_vehicles_results None fw class_names rs acc = Inr acc"
  using assms
proof (induction rs arbitrary: acc)
  case Nil
  show ?case by simp
next
  case (Cons r rs)
  show ?case
  proof (cases r)
    case None
    with Cons show ?thesis by (simp add: detections_of_None)
  next
    case (Some bs)
    have bs: "\<forall>b \<in> set bs. cls b \<in> dom class_names"
      and rest: "\<forall>b \<in> set (detections_of rs). cls b \<in> dom class_names"
      using Cons.prems by (simp_all add: Some detections_of_Some)
    show ?thesis
      by (simp add: Some close_vehicles_boxes_no_depth[OF bs] Cons.IH[OF rest])
  qed
qed

text \<open>One step of the collision loop, for a box with a name.\<close>

lemma collision_boxes_step:
  assumes "cls b \<in> dom class_names" "0 < shape0 dm" "0 < shape1 dm"
    and "spec_road_relevant b \<and> is_in_collision_roi (x1 b) (y1 b) (x2 b) (y2 b) fw fh
           \<Longrightarrow> spec_finite_center b"
  shows "collision_boxes (Some dm) fw fh class_names (b # bs) cd =
           (if spec_collides dm fw fh b then Inr True
            else collision_boxes (Some dm) fw fh class_names bs cd)"
proof -
  from assms(1) obtain nm where nm: "class_names (cls b) = Some nm" by auto
  show ?thesis
  proof (cases "spec_road_relevant b \<and> is_in_collision_roi (x1 b) (y1 b) (x2 b) (y2 b) fw fh")
    case False
    then show ?thesis
      by (auto simp add: nm spec_collides_def spec_road_relevant_def road_values)
  next
    case True
    then have on: "conf b > CONFIDENCE_THRESHOLD \<and> cls b \<in> set ROAD_CLASSES_values"
      and roi: "is_in_collision_roi (x1 b) (y1 b) (x2 b) (y2 b) fw fh"
      by (simp_all add: spec_road_relevant_def road_values)
    note c = center_of_finite[OF assms(4)[OF True]]
    have t: "(case sample_depth_values dm (fst (spec_center b)) (snd (spec_center b)) 5 of
                Inl e \<Rightarrow> Inl e
              | Inr depth_values \<Rightarrow>
                  if np_gt (np_median depth_values) (of_int COLLISION_THRESHOLD)
                  then Inr True
                  else collision_boxes (Some dm) fw fh class_names bs cd)
             = (if spec_depth_above dm b 5 (of_int COLLISION_THRESHOLD) then Inr True
                else collision_boxes (Some dm) fw fh class_names bs cd)"
      using assms(2,3)
      by (simp add: sample_depth_values_spec[OF assms(2,3)]
          np_gt_median_odd[OF odd_samples_5] spec_depth_above_def spec_nonempty_def)
    show ?thesis
      using True
      by (simp add: nm on roi c t spec_collides_def DEPTH_COLLISION_SAMPLE_SIZE_def)
  qed
qed

lemma collision_boxes_depth:
  assumes "\<forall>b \<in> set bs. cls b \<in> dom class_names" "0 < shape0 dm" "0 < shape1 dm"
    and "\<forall>b \<in> set bs. spec_road_relevant b
           \<and> is_in_collision_roi (x1 b) (y1 b) (x2 b) (y2 b) fw fh \<longrightarrow> spec_finite_center b"
  shows "collision_boxes (Some dm) fw fh class_names bs cd =
           Inr (cd \<or> (\<exists>b \<in> set bs. spec_collides dm fw fh b))"
  using assms(1,4)
proof (induction bs)
  case Nil
  show ?case by simp
next
  case (Cons b bs)
  have nm: "cls b \<in> dom class_names" using Cons.prems by simp
  have fin: "spec_road_relevant b \<and> is_in_collision_roi (x1 b) (y1 b) (x2 b) (y2 b) fw fh
           \<Longrightarrow> spec_finite_center b" using Cons.prems by simp
  have rest: "\<forall>b \<in> set bs. cls b \<in> dom class_names"
    "\<forall>b \<in> set bs. spec_road_relevant b
           \<and> is_in_collision_roi (x1 b) (y1 b) (x2 b) (y2 b) fw fh \<longrightarrow> spec_finite_center b"
    using Cons.prems by simp_all
  show ?case
    by (simp only: collision_boxes_step[OF nm assms(2,3) fin] Cons.IH[OF rest]) auto
qed

lemma collision_results_depth:
  assumes "\<forall>b \<in> set (detections_of rs). cls b \<in> dom class_names"
    and "0 < shape0 dm" "0 < shape1 dm"
    and "\<forall>b \<in> set (detections_of rs). spec_road_relevant b
           \<and> is_in_collision_roi (x1 b) (y1 b) (x2 b) (y2 b) fw fh \<longrightarrow> spec_finite_center b"
  shows "collision_results (Some dm) fw fh class_names rs cd =
           Inr (cd \<or> (\<exists>b \<in> set (detections_of rs). spec_collides dm fw fh b))"
  using assms(1,4)
proof (induction rs arbitrary: cd)
  case Nil
  show ?case by (simp add: detections_of_Nil)
next
  case (Cons r rs)
  show ?case
  proof (cases r)
    case None
    with Cons show ?thesis by (simp add: detections_of_None)
  next
    case (Some bs)
    have bs: "\<forall>b \<in> set bs. cls b \<in> dom class_names"
      "\<forall>b \<in> set bs. spec_road_relevant b
           \<and> is_in_collision_roi (x1 b) (y1 b) (x2 b) (y2 b) fw fh \<longrightarrow> spec_finite_center b"
      and rest: "\<forall>b \<in> set (detections_of rs). cls b \<in> dom class_names"
      "\<forall>b \<in> set (detections_of rs). spec_road_relevant b
           \<and> is_in_collision_roi (x1 b) (y1 b) (x2 b) (y2 b) fw fh \<longrightarrow> spec_finite_center b"
      using Cons.prems by (simp_all add: Some detections_of_Some)
    show ?thesis
      by (auto simp add: Some detections_of_Some
          collision_boxes_depth[OF bs(1) assms(2,3) bs(2)] Cons.IH[OF rest])
  qed
qed

text \<open>On a map without pixels no reading is ever taken, so the flag never changes.\<close>

lemma collision_boxes_empty_map:
  assumes "shape0 dm = 0 \<or> shape1 dm = 0"
  shows "collision_boxes (Some dm) fw fh class_names bs cd = Inr c \<Longrightarrow> c = cd"
proof (induction bs)
  case Nil
  then show ?case by simp
next
  case (Cons b bs)
  show ?case
  proof (cases "class_names (cls b)")
    case None
    with Cons.prems show ?thesis by simp
  next
    case (Some nm)
    with Cons show ?thesis
      by (simp add: DEPTH_COLLISION_SAMPLE_SIZE_def sample_depth_values_empty_map[OF assms]
          split: if_splits sum.splits)
  qed
qed

lemma collision_results_empty_map:
  assumes "shape0 dm = 0 \<or> shape1 dm = 0"
  shows "collision_results (Some dm) fw fh class_names rs cd = Inr c \<Longrightarrow> c = cd"
proof (induction rs arbitrary: cd)
  case Nil
  then show ?case by simp
next
  case (Cons r rs)
  show ?case
  proof (cases r)
    case None
    with Cons show ?thesis by simp
  next
    case (Some bs)
    with Cons.prems obtain c' where
      c': "collision_boxes (Some dm) fw fh class_names bs cd = Inr c'"
      and r: "collision_results (Some dm) fw fh class_names rs c' = Inr c"
      by (auto split: sum.splits)
    from collision_boxes_empty_map[OF assms c'] Cons.IH[OF r] show ?thesis by simp
  qed
qed

lemma collision_boxes_no_depth:
  "collision_boxes None fw fh class_names bs cd = Inr c \<Longrightarrow> c = cd"
proof (induction bs)
  case Nil
  then show ?case by simp
next
  case (Cons b bs)
  then show ?case
    by (simp split: option.splits if_splits)
qed

lemma collision_boxes_no_depth_known:
  assumes "\<forall>b \<in> set bs. cls b \<in> dom class_names"
  shows "collision_boxes None fw fh class_names bs cd = Inr cd"
  using assms
proof (induction bs)
  case Nil
  show ?case by simp
next
  case (Cons b bs)
  from Cons.prems obtain nm where nm: "class_names (cls b) = Some nm" by auto
  have rest: "\<forall>b \<in> set bs. cls b \<in> dom class_names" using Cons.prems by simp
  show ?case
    by (simp add: nm Cons.IH[OF rest])
qed

lemma collision_results_no_depth:
  "collision_results None fw fh class_names rs cd = Inr c \<Longrightarrow> c = cd"
proof (induction rs arbitrary: cd)
  case Nil
  then show ?case by simp
next
  case (Cons r rs)
  show ?case
  proof (cases r)
    case None
    with Cons show ?thesis by simp
  next
    case (Some bs)
    with Cons.prems obtain c' where
      c': "collision_boxes None fw fh class_names bs cd = Inr c'"
      and r: "collision_results None fw fh class_names rs c' = Inr c"
      by (auto split: sum.splits)
    from collision_boxes_no_depth[OF c'] Cons.IH[OF r] show ?thesis by simp
  qed
qed

lemma collision_results_no_depth_known:
  assumes "\<forall>b \<in> set (detections_of rs). cls b \<in> dom class_names"
  shows "collision_results None fw fh class_names rs cd = Inr cd"
  using assms
proof (induction rs)
  case Nil
  show ?case by simp
next
  case (Cons r rs)
  show ?case
  proof (cases r)
    case None
    with Cons show ?thesis by (simp add: detections_of_None)
  next
    case (Some bs)
    have bs: "\<forall>b \<in> set bs. cls b \<in> dom class_names"
      and rest: "\<forall>b \<in> set (detections_of rs). cls b \<in> dom class_names"
      using Cons.prems by (simp_all add: Some detections_of_Some)
    show ?thesis
      by (simp add: Some collision_boxes_no_depth_known[OF bs] Cons.IH[OF rest])
  qed
qed


section \<open>Detections that the filter drops\<close>

lemma close_vehicles_box_inert:
  assumes "cls b \<in> dom class_names" "\<not> spec_road_relevant b"
  shows "close_vehicles_box depth_map fw class_names acc b = Inr acc"
proof -
  from assms(1) obtain nm where nm: "class_names (cls b) = Some nm" by auto
  have off: "\<not> (conf b > CONFIDENCE_THRESHOLD \<and> cls b \<in> set ROAD_CLASSES_values)"
    using assms(2) by (simp add: spec_road_relevant_def road_values)
  show ?thesis
    by (simp only: close_vehicles_box_def nm option.case off if_False)
qed

lemma close_vehicles_boxes_inert:
  assumes "cls b \<in> dom class_names" "\<not> spec_road_relevant b"
  shows "close_vehicles_boxes depth_map fw class_names (bs1 @ b # bs2) acc
           = close_vehicles_boxes depth_map fw class_names (bs1 @ bs2) acc"
proof (induction bs1 arbitrary: acc)
  case Nil
  show ?case by (simp add: close_vehicles_box_inert[OF assms])
next
  case (Cons a bs1)
  show ?case by (simp add: Cons.IH split: sum.splits)
qed

lemma close_vehicles_results_inert:
  assumes "cls b \<in> dom class_names" "\<not> spec_road_relevant b"
  shows "close_vehicles_results depth_map fw class_names (rs1 @ Some (bs1 @ b # bs2) # rs2) acc
           = close_vehicles_results depth_map fw class_names (rs1 @ Some (bs1 @ bs2) # rs2) acc"
proof (induction rs1 arbitrary: acc)
  case Nil
  show ?case by (simp add: close_vehicles_boxes_inert[OF assms])
next
  case (Cons r rs1)
  show ?case by (simp add: Cons.IH split: sum.splits option.splits)
qed

lemma close_vehicles_results_inert_new:
  assumes "cls b \<in> dom class_names" "\<not> spec_road_relevant b"
  shows "close_vehicles_results depth_map fw class_names (rs1 @ Some [b] # rs2) acc
           = close_vehicles_results depth_map fw class_names (rs1 @ None # rs2) acc"
proof (induction rs1 arbitrary: acc)
  case Nil
  show ?case by (simp add: close_vehicles_box_inert[OF assms])
next
  case (Cons r rs1)
  show ?case by (simp add: Cons.IH split: sum.splits option.splits)
qed

lemma collision_boxes_inert_head:
  assumes "cls b \<in> dom class_names" "\<not> spec_road_relevant b"
  shows "collision_boxes depth_map fw fh class_names (b # bs) cd
           = collision_boxes depth_map fw fh class_names bs cd"
proof -
  from assms(1) obtain nm where nm: "class_names (cls b) = Some nm" by auto
  have off: "\<not> (conf b > CONFIDENCE_THRESHOLD \<and> cls b \<in> set ROAD_CLASSES_values)"
    using assms(2) by (simp add: spec_road_relevant_def road_values)
  show ?thesis
    by (simp only: collision_boxes.simps nm option.case off if_False)
qed

lemma collision_boxes_inert:
  assumes "cls b \<in> dom class_names" "\<not> spec_road_relevant b"
  shows "collision_boxes depth_map fw fh class_names (bs1 @ b # bs2) cd
           = collision_boxes depth_map fw fh class_names (bs1 @ bs2) cd"
proof (induction bs1)
  case Nil
  show ?case by (simp only: append_Nil collision_boxes_inert_head[OF assms])
next
  case (Cons a bs1)
  show ?case
    by (simp only: append_Cons collision_boxes.simps Cons.IH)
qed

lemma collision_results_inert:
  assumes "cls b \<in> dom class_names" "\<not> spec_road_relevant b"
  shows "collision_results depth_map fw fh class_names (rs1 @ Some (bs1 @ b # bs2) # rs2) cd
           = collision_results depth_map fw fh class_names (rs1 @ Some (bs1 @ bs2) # rs2) cd"
proof (induction rs1 arbitrary: cd)
  case Nil
  show ?case by (simp add: collision_boxes_inert[OF assms])
next
  case (Cons r rs1)
  show ?case by (simp add: Cons.IH split: option.splits sum.splits)
qed

lemma collision_results_inert_new:
  assumes "cls b \<in> dom class_names" "\<not> spec_road_relevant b"
  shows "collision_results depth_map fw fh class_names (rs1 @ Some [b] # rs2) cd
           = collision_results depth_map fw fh class_names (rs1 @ None # rs2) cd"
proof (induction rs1 arbitrary: cd)
  case Nil
  have "collision_boxes depth_map fw fh class_names [b] cd = Inr cd"
    by (simp only: collision_boxes_inert_head[OF assms] collision_boxes.simps(1))
  then show ?case
    by (simp del: collision_boxes.simps)
next
  case (Cons r rs1)
  show ?case by (simp add: Cons.IH split: option.splits sum.splits)
qed


section \<open>What returning normally implies\<close>

lemma close_vehicles_box_returns:
  "close_vehicles_box depth_map fw class_names acc b = Inr v \<Longrightarrow> cls b \<in> dom class_names"
  by (cases "class_names (cls b)") (simp_all add: close_vehicles_box_def domI)

lemma close_vehicles_boxes_returns:
  "close_vehicles_boxes depth_map fw class_names bs acc = Inr v
   \<Longrightarrow> \<forall>b \<in> set bs. cls b \<in> dom class_names"
proof (induction bs arbitrary: acc)
  case Nil
  show ?case by simp
next
  case (Cons b bs)
  from Cons.prems obtain acc' where
    s: "close_vehicles_box depth_map fw class_names acc b = Inr acc'"
    and r: "close_vehicles_boxes depth_map fw class_names bs acc' = Inr v"
    by (auto split: sum.splits)
  from close_vehicles_box_returns[OF s] Cons.IH[OF r] show ?case by simp
qed

lemma close_vehicles_results_returns:
  "close_vehicles_results depth_map fw class_names rs acc = Inr v
   \<Longrightarrow> \<forall>b \<in> set (detections_of rs). cls b \<in> dom class_names"
proof (induction rs arbitrary: acc)
  case Nil
  show ?case by (simp add: detections_of_Nil)
next
  case (Cons r rs)
  show ?case
  proof (cases r)
    case None
    with Cons show ?thesis by (simp add: detections_of_None)
  next
    case (Some bs)
    with Cons.prems obtain acc' where
      s: "close_vehicles_boxes depth_map fw class_names bs acc = Inr acc'"
      and r: "close_vehicles_results depth_map fw class_names rs acc' = Inr v"
      by (auto split: sum.splits)
    from close_vehicles_boxes_returns[OF s] Cons.IH[OF r] show ?thesis
      by (auto simp add: Some detections_of_Some)
  qed
qed

lemma collision_boxes_unknown_head:
  "class_names (cls b) = None
   \<Longrightarrow> collision_boxes depth_map fw fh class_names (b # bs) cd = Inl KeyError"
  by simp

lemma collision_boxes_False:
  "collision_boxes depth_map fw fh class_names bs cd = Inr False
   \<Longrightarrow> \<not> cd \<and> (\<forall>b \<in> set bs. cls b \<in> dom class_names)"
proof (induction bs)
  case Nil
  then show ?case by simp
next
  case (Cons b bs)
  show ?case
  proof (cases "class_names (cls b)")
    case None
    with Cons.prems show ?thesis by simp
  next
    case (Some nm)
    have "collision_boxes depth_map fw fh class_names bs cd = Inr False"
      using Cons.prems
      by (simp add: Some Let_def split: if_splits option.splits sum.splits)
    from Cons.IH[OF this] Some show ?thesis by auto
  qed
qed

lemma collision_results_False:
  "collision_results depth_map fw fh class_names rs cd = Inr False
   \<Longrightarrow> \<not> cd \<and> (\<forall>b \<in> set (detections_of rs). cls b \<in> dom class_names)"
proof (induction rs arbitrary: cd)
  case Nil
  then show ?case by (simp add: detections_of_Nil)
next
  case (Cons r rs)
  show ?case
  proof (cases r)
    case None
    with Cons.prems have "collision_results depth_map fw fh class_names rs cd = Inr False"
      by simp
    from Cons.IH[OF this] show ?thesis by (simp add: None detections_of_None)
  next
    case (Some bs)
    with Cons.prems obtain c' where
      s: "collision_boxes depth_map fw fh class_names bs cd = Inr c'"
      and r: "collision_results depth_map fw fh class_names rs c' = Inr False"
      by (auto split: sum.splits)
    from Cons.IH[OF r] have c': "\<not> c'"
      and k: "\<forall>b \<in> set (detections_of rs). cls b \<in> dom class_names" by simp_all
    from s c' have "collision_boxes depth_map fw fh class_names bs cd = Inr False" by simp
    from collision_boxes_False[OF this] k show ?thesis
      by (auto simp add: Some detections_of_Some)
  qed
qed


section \<open>The persistence counters\<close>

lemma init_fields:
  "left_warning_frames init_WarningSystem = 0"
  "right_warning_frames init_WarningSystem = 0"
  "collision_alert_frames init_WarningSystem = 0"
  "warning_threshold init_WarningSystem = 3"
  "collision_alert_threshold init_WarningSystem = 2"
  by (simp_all add: init_WarningSystem_def WARNING_THRESHOLD_def COLLISION_ALERT_THRESHOLD_def)

lemma update_warning_fields:
  "left_warning_frames (update_warning_persistence ws l r)
     = (if l \<noteq> [] then left_warning_frames ws + 1 else 0)"
  "right_warning_frames (update_warning_persistence ws l r)
     = (if r \<noteq> [] then right_warning_frames ws + 1 else 0)"
  "warning_threshold (update_warning_persistence ws l r) = warning_threshold ws"
  "collision_alert_frames (update_warning_persistence ws l r) = collision_alert_frames ws"
  "collision_alert_threshold (update_warning_persistence ws l r) = collision_alert_threshold ws"
  by (simp_all add: update_warning_persistence_def Let_def)

lemma update_collision_fields:
  "collision_alert_frames (update_collision_persistence ws c)
     = (if c then collision_alert_frames ws + 1 else 0)"
  "collision_alert_threshold (update_collision_persistence ws c) = collision_alert_threshold ws"
  "left_warning_frames (update_collision_persistence ws c) = left_warning_frames ws"
  "right_warning_frames (update_collision_persistence ws c) = right_warning_frames ws"
  "warning_threshold (update_collision_persistence ws c) = warning_threshold ws"
  by (simp_all add: update_collision_persistence_def)

lemma feed_warning_threshold:
  "warning_threshold (feed_warning ws fs) = warning_threshold ws"
proof (induction fs arbitrary: ws)
  case Nil
  show ?case by simp
next
  case (Cons f fs)
  obtain l r where f: "f = (l, r)" by (cases f)
  show ?case by (simp add: f Cons.IH update_warning_fields)
qed

lemma feed_warning_left:
  "\<forall>f \<in> set fs. fst f \<noteq> [] \<Longrightarrow>
   left_warning_frames (feed_warning ws fs) = left_warning_frames ws + int (length fs)"
proof (induction fs arbitrary: ws)
  case Nil
  show ?case by simp
next
  case (Cons f fs)
  obtain l r where f: "f = (l, r)" by (cases f)
  have l: "l \<noteq> []" and rest: "\<forall>f \<in> set fs. fst f \<noteq> []" using Cons.prems by (simp_all add: f)
  show ?case by (simp add: f Cons.IH[OF rest] update_warning_fields l)
qed

lemma feed_warning_right:
  "\<forall>f \<in> set fs. snd f \<noteq> [] \<Longrightarrow>
   right_warning_frames (feed_warning ws fs) = right_warning_frames ws + int (length fs)"
proof (induction fs arbitrary: ws)
  case Nil
  show ?case by simp
next
  case (Cons f fs)
  obtain l r where f: "f = (l, r)" by (cases f)
  have r: "r \<noteq> []" and rest: "\<forall>f \<in> set fs. snd f \<noteq> []" using Cons.prems by (simp_all add: f)
  show ?case by (simp add: f Cons.IH[OF rest] update_warning_fields r)
qed

lemma left_fires_after:
  assumes "\<forall>f \<in> set fs. fst f \<noteq> []" "left_warning_frames ws = 0" "warning_threshold ws = 3"
  shows "left_warning_frames (feed_warning ws fs) = int (length fs)
         \<and> shows_left_warning (feed_warning ws fs) = (3 \<le> length fs)"
  using feed_warning_left[OF assms(1), of ws] assms(2,3)
  by (auto simp add: shows_left_warning_def feed_warning_threshold)

lemma right_fires_after:
  assumes "\<forall>f \<in> set fs. snd f \<noteq> []" "right_warning_frames ws = 0" "warning_threshold ws = 3"
  shows "right_warning_frames (feed_warning ws fs) = int (length fs)
         \<and> shows_right_warning (feed_warning ws fs) = (3 \<le> length fs)"
  using feed_warning_right[OF assms(1), of ws] assms(2,3)
  by (auto simp add: shows_right_warning_def feed_warning_threshold)


section \<open>Facts about the example inputs\<close>

lemmas f32_eval = half_sum_def f32_def f32_round_def F32_OVERFLOW_def floor_log2_def
  bit_length.simps pow2_def round_half_even_def Let_def

lemma half_sum_examples:
  "half_sum 300 380 = Finite 340" "half_sum 450 550 = Finite 500"
  "half_sum 500 700 = Finite 600" "half_sum 100 300 = Finite 200"
  "half_sum 8 10 = Finite 9"
  "half_sum (16777215 / 16777216) 11 = Finite 6"
  "half_sum (16777215 / 16777216) 15 = Finite 8"
  "half_sum (2 ^ 127) (2 ^ 127) = PosInf"
  "half_sum (2 ^ 126) (2 ^ 126) = Finite (2 ^ 126)"
  "half_sum 1 16777216 = Finite 8388608"
  "half_sum 16777216 16777216 = Finite 16777216"
  "half_sum 3 16777216 = Finite 8388610"
  "half_sum (- 1) (- 16777216) = Finite (- 8388608)"
  "half_sum (1 / 10) (1 / 5) = Finite (5033165 / 33554432)"
  by (simp_all add: f32_eval)

text \<open>The ends of the float32 range: the greatest finite value and the overflow to
  infinity, and the least positive value with a tie below it.\<close>

lemma half_sum_range:
  "half_sum (2 ^ 127) (2 ^ 127 - 2 ^ 103) = PosInf"
  "half_sum (2 ^ 127) (2 ^ 127 - 2 ^ 103 - 1) = Finite (2 ^ 127 - 2 ^ 103)"
  "half_sum (- (2 ^ 127)) (- (2 ^ 127)) = NegInf"
  "half_sum (1 / 2 ^ 149) 0 = Finite 0"
  "half_sum (3 / 2 ^ 149) 0 = Finite (1 / 2 ^ 148)"
  by (simp_all add: f32_eval)

lemma np_median_constant:
  assumes "\<forall>x \<in> set xs. x = c" "odd (length xs)"
  shows "np_median xs = Finite c"
proof -
  have xs: "xs = replicate (length xs) c"
    using assms(1) by (simp add: replicate_length_same)
  have s: "sort xs = xs"
    by (subst xs, subst xs) (simp add: sorted_sort_id)
  have "xs ! (length xs div 2) = c"
    using assms(1) odd_middle[OF assms(2)] by simp
  then show ?thesis
    by (simp add: np_median_odd[OF assms(2)] s)
qed

lemma flat_map_nonempty: "spec_nonempty (flat_map v)"
  by (simp add: spec_nonempty_def flat_map_def)

lemma flat_map_depth: "spec_depth_above (flat_map v) b 5 t = (t < v)"
proof -
  have "np_median (spec_samples (flat_map v) cx cy 5) = Finite v" for cx cy
  proof (rule np_median_constant)
    show "\<forall>x \<in> set (spec_samples (flat_map v) cx cy 5). x = v"
      by (auto simp add: spec_samples_def flat_map_def)
    show "odd (length (spec_samples (flat_map v) cx cy 5))"
      by (rule odd_samples_5)
  qed
  then show ?thesis
    by (simp add: spec_depth_above_def flat_map_nonempty
        np_gt_median_odd[OF odd_samples_5, symmetric])
qed

lemma spec_offsets_5: "spec_offsets 5 = [-5, -3, -1, 1, 3]"
  by (simp add: spec_offsets_def upt_rec)

lemma spec_offsets_2: "spec_offsets 2 = [-2, 0]"
  by (simp add: spec_offsets_def upt_rec)

lemma length_filter_split:
  "length (filter (\<lambda>x. P x \<and> Q x) xs) + length (filter (\<lambda>x. P x \<and> \<not> Q x) xs)
     = length (filter P xs)"
  by (induction xs) simp_all

lemma example_known:
  "spec_known_classes names_example [Some [car_left, truck_right]]"
  by (simp add: spec_known_classes_def detections_of_def names_example_def car_left_def
      truck_right_def)

lemma road_relevant_examples:
  "spec_road_relevant car_left" "spec_road_relevant truck_right"
  "spec_road_relevant edge_car_11" "spec_road_relevant edge_car_15"
  "spec_road_relevant far_car"
  by (simp_all add: spec_road_relevant_def CONFIDENCE_THRESHOLD_def ROAD_CLASSES_def
      car_left_def truck_right_def edge_car_11_def edge_car_15_def far_car_def)

lemma finite_center_examples:
  "spec_finite_center car_left" "spec_finite_center truck_right"
  "spec_finite_center edge_car_11" "spec_finite_center edge_car_15"
  "\<not> spec_finite_center far_car"
  by (simp_all add: spec_finite_center_def car_left_def truck_right_def edge_car_11_def
      edge_car_15_def far_car_def f32_eval)

lemma center_examples:
  "spec_center car_left = (340, 500)" "spec_center truck_right = (600, 200)"
  "spec_center edge_car_11 = (6, 9)" "spec_center edge_car_15 = (8, 9)"
  "spec_exact_center edge_car_11 = (5, 9)" "spec_exact_center edge_car_15 = (7, 9)"
  by (simp_all add: spec_center_def spec_exact_center_def car_left_def truck_right_def
      edge_car_11_def edge_car_15_def half_sum_examples py_trunc_def)

lemma roi_examples:
  "is_in_collision_roi (x1 car_left) (y1 car_left) (x2 car_left) (y2 car_left) 800 600"
  "\<not> is_in_collision_roi (x1 truck_right) (y1 truck_right) (x2 truck_right) (y2 truck_right) 800 600"
  "is_in_collision_roi (x1 edge_car_11) (y1 edge_car_11) (x2 edge_car_11) (y2 edge_car_11) 16 12"
  by (simp_all add: is_in_collision_roi_def GRID_COLS_def GRID_ROWS_def Let_def
      car_left_def truck_right_def edge_car_11_def)

lemma collides_examples:
  "spec_collides (flat_map 700) 800 600 car_left"
  "\<not> spec_collides (flat_map 700) 800 600 truck_right"
  by (simp_all add: spec_collides_def road_relevant_examples roi_examples flat_map_depth
      DEPTH_COLLISION_SAMPLE_SIZE_def COLLISION_THRESHOLD_def)

lemma close_examples:
  "spec_close (flat_map 1300) car_left" "spec_close (flat_map 1300) truck_right"
  by (simp_all add: spec_close_def road_relevant_examples flat_map_depth
      CLOSE_DEPTH_THRESHOLD_def)

lemma side_examples:
  "spec_on_left 800 car_left" "\<not> spec_on_left 800 truck_right"
  "\<not> spec_on_left 16 edge_car_15" "spec_exact_on_left 16 edge_car_15"
  by (simp_all add: spec_on_left_def spec_exact_on_left_def car_left_def truck_right_def
      edge_car_15_def half_sum_examples)

lemma quiet_facts:
  "cls quiet_car \<in> dom names_example" "conf quiet_car \<le> CONFIDENCE_THRESHOLD"
  "cls dog \<in> dom names_example" "cls dog \<notin> snd ` set ROAD_CLASSES"
  by (simp_all add: quiet_car_def dog_def names_example_def CONFIDENCE_THRESHOLD_def
      ROAD_CLASSES_def)

lemma stray_facts:
  "names_example (cls stray) = None" "conf stray \<le> CONFIDENCE_THRESHOLD"
  "cls stray \<notin> snd ` set ROAD_CLASSES"
  by (simp_all add: stray_def names_example_def CONFIDENCE_THRESHOLD_def ROAD_CLASSES_def)

lemma median_above_sloping:
  "spec_median_above (spec_samples (rising_map 596) 6 9 5) 600"
  "\<not> spec_median_above (spec_samples (rising_map 596) 5 9 5) 600"
  "spec_median_above (spec_samples (rising_map 1300) 8 9 5) 1200"
  "spec_median_above (spec_samples (rising_map 1300) 7 9 5) 1200"
  "\<not> spec_median_above (spec_samples (falling_map 605) 6 9 5) 600"
  "spec_median_above (spec_samples (falling_map 605) 5 9 5) 600"
  by code_simp+


section \<open>ROI geometry\<close>

text \<open>
  C5. For every frame width and height, \<^verbatim>\<open>get_roi_coordinates\<close> returns
  (cell\_w, h - cell\_h, 3 * cell\_w, h) with cell\_w = w // GRID\_COLS and
  cell\_h = h // GRID\_ROWS, the grid being 4 by 3; for an 800 by 600 frame this is
  (200, 400, 600, 600).
\<close>

theorem get_roi_coordinates_grid:
  "get_roi_coordinates w h = (w div GRID_COLS, h - h div GRID_ROWS, 3 * (w div GRID_COLS), h)
   \<and> GRID_COLS = 4 \<and> GRID_ROWS = 3
   \<and> get_roi_coordinates 800 600 = (200, 400, 600, 600)"
  by (simp add: get_roi_coordinates_def GRID_COLS_def GRID_ROWS_def Let_def)


text \<open>
  C6. For a box with x1 \<le> x2 and y1 \<le> y2 and a frame of width and height at least 0,
  \<^verbatim>\<open>is_in_collision_roi\<close> is true exactly when the box lies neither entirely left of,
  right of, above nor below the ROI rectangle, that is, exactly when the closed
  intervals [x1, x2] and [roi\_left, roi\_right] meet and [y1, y2] and
  [roi\_top, roi\_bottom] meet. In an 800 by 600 frame the box (200, 400, 300, 500)
  meets the ROI and the box (50, 100, 150, 200) does not.
\<close>

theorem is_in_collision_roi_overlap:
  assumes "bx1 \<le> bx2" "by1 \<le> by2" "0 \<le> w" "0 \<le> h"
  shows "(case get_roi_coordinates w h of
            (roi_left, roi_top, roi_right, roi_bottom) \<Rightarrow>
              is_in_collision_roi bx1 by1 bx2 by2 w h
                = (\<not> (bx2 < of_int roi_left \<or> of_int roi_right < bx1
                       \<or> by2 < of_int roi_top \<or> of_int roi_bottom < by1))
              \<and> is_in_collision_roi bx1 by1 bx2 by2 w h
                = ({bx1..bx2} \<inter> {of_int roi_left..of_int roi_right} \<noteq> {}
                   \<and> {by1..by2} \<inter> {of_int roi_top..of_int roi_bottom} \<noteq> {}))
         \<and> is_in_collision_roi 200 400 300 500 800 600
         \<and> \<not> is_in_collision_roi 50 100 150 200 800 600"
proof -
  have lr: "real_of_int (w div 4) \<le> real_of_int (3 * (w div 4))"
    using assms(3) by (simp add: pos_imp_zdiv_nonneg_iff)
  have tb: "real_of_int (h - h div 3) \<le> real_of_int h"
    using assms(4) by (simp add: pos_imp_zdiv_nonneg_iff)
  have a: "is_in_collision_roi 200 400 300 500 800 600"
    by (simp add: is_in_collision_roi_def GRID_COLS_def GRID_ROWS_def Let_def)
  have b: "\<not> is_in_collision_roi 50 100 150 200 800 600"
    by (simp add: is_in_collision_roi_def GRID_COLS_def GRID_ROWS_def Let_def)
  have c: "is_in_collision_roi bx1 by1 bx2 by2 w h
      = (\<not> (bx2 < real_of_int (w div 4) \<or> real_of_int (3 * (w div 4)) < bx1
             \<or> by2 < real_of_int (h - h div 3) \<or> real_of_int h < by1))"
    by (simp add: is_in_collision_roi_def GRID_COLS_def GRID_ROWS_def Let_def)
  have d: "(\<not> (bx2 < real_of_int (w div 4) \<or> real_of_int (3 * (w div 4)) < bx1
             \<or> by2 < real_of_int (h - h div 3) \<or> real_of_int h < by1))
      = ({bx1..bx2} \<inter> {real_of_int (w div 4)..real_of_int (3 * (w div 4))} \<noteq> {}
                   \<and> {by1..by2} \<inter> {real_of_int (h - h div 3)..real_of_int h} \<noteq> {})"
    using assms(1,2) lr tb unfolding Int_atLeastAtMost atLeastatMost_empty_iff
    by auto
  show ?thesis
    using a b c d
    by (simp only: get_roi_coordinates_def GRID_COLS_def GRID_ROWS_def Let_def prod.case) simp
qed

theorem is_in_collision_roi_overlap_witness:
  "is_in_collision_roi 250 450 700 650 800 600
   \<and> {250..700} \<inter> {real_of_int 200..real_of_int 600} \<noteq> {}"
  using is_in_collision_roi_overlap[of 250 700 450 650 800 600]
  by (simp add: get_roi_coordinates_def GRID_COLS_def GRID_ROWS_def Let_def)


section \<open>Persistence\<close>

text \<open>
  C2. Every counter starts at 0; an update with a true signal (for the side counters:
  a non-empty list) adds 1 and an update with a false signal sets the counter to 0;
  a counter fires exactly when it has reached its threshold. Hence, from the initial
  state, after k consecutive true updates a side counter (threshold 3) holds k and
  fires exactly when k \<ge> 3; one false update at any later point sets it to 0 and stops
  it firing at once, and from there it fires again exactly after three or more
  consecutive true updates.
\<close>

theorem persistence_state_machine:
  "left_warning_frames init_WarningSystem = 0
   \<and> right_warning_frames init_WarningSystem = 0
   \<and> collision_alert_frames init_WarningSystem = 0
   \<and> left_warning_frames (update_warning_persistence ws l r)
       = (if l \<noteq> [] then left_warning_frames ws + 1 else 0)
   \<and> right_warning_frames (update_warning_persistence ws l r)
       = (if r \<noteq> [] then right_warning_frames ws + 1 else 0)
   \<and> collision_alert_frames (update_collision_persistence ws c)
       = (if c then collision_alert_frames ws + 1 else 0)
   \<and> shows_left_warning ws = (warning_threshold ws \<le> left_warning_frames ws)
   \<and> shows_right_warning ws = (warning_threshold ws \<le> right_warning_frames ws)
   \<and> should_show_collision_alert ws = (collision_alert_threshold ws \<le> collision_alert_frames ws)
   \<and> warning_threshold init_WarningSystem = 3
   \<and> ((\<forall>f \<in> set fs. fst f \<noteq> []) \<longrightarrow>
        left_warning_frames (feed_warning init_WarningSystem fs) = int (length fs)
        \<and> shows_left_warning (feed_warning init_WarningSystem fs) = (3 \<le> length fs))
   \<and> ((\<forall>f \<in> set fs. snd f \<noteq> []) \<longrightarrow>
        right_warning_frames (feed_warning init_WarningSystem fs) = int (length fs)
        \<and> shows_right_warning (feed_warning init_WarningSystem fs) = (3 \<le> length fs))
   \<and> left_warning_frames (update_warning_persistence (feed_warning init_WarningSystem gs) [] r) = 0
   \<and> \<not> shows_left_warning (update_warning_persistence (feed_warning init_WarningSystem gs) [] r)
   \<and> ((\<forall>f \<in> set fs. fst f \<noteq> []) \<longrightarrow>
        shows_left_warning
          (feed_warning (update_warning_persistence (feed_warning init_WarningSystem gs) [] r) fs)
          = (3 \<le> length fs))
   \<and> right_warning_frames (update_warning_persistence (feed_warning init_WarningSystem gs) l []) = 0
   \<and> \<not> shows_right_warning (update_warning_persistence (feed_warning init_WarningSystem gs) l [])
   \<and> ((\<forall>f \<in> set fs. snd f \<noteq> []) \<longrightarrow>
        shows_right_warning
          (feed_warning (update_warning_persistence (feed_warning init_WarningSystem gs) l []) fs)
          = (3 \<le> length fs))"
proof -
  let ?s = "feed_warning init_WarningSystem gs"
  have th: "warning_threshold ?s = 3"
    by (simp add: feed_warning_threshold init_fields)
  have l0: "left_warning_frames (update_warning_persistence ?s [] r) = 0"
    and lt: "warning_threshold (update_warning_persistence ?s [] r) = 3"
    and r0: "right_warning_frames (update_warning_persistence ?s l []) = 0"
    and rt: "warning_threshold (update_warning_persistence ?s l []) = 3"
    by (simp_all add: update_warning_fields th)
  have nl: "\<not> shows_left_warning (update_warning_persistence ?s [] r)"
    by (simp add: shows_left_warning_def l0 lt)
  have nr: "\<not> shows_right_warning (update_warning_persistence ?s l [])"
    by (simp add: shows_right_warning_def r0 rt)
  note A = left_fires_after[OF _ init_fields(1) init_fields(4)]
    and B = right_fires_after[OF _ init_fields(2) init_fields(4)]
    and C = left_fires_after[OF _ l0 lt] and D = right_fires_after[OF _ r0 rt]
  show ?thesis
    by (intro conjI impI init_fields update_warning_fields update_collision_fields
        shows_left_warning_def shows_right_warning_def should_show_collision_alert_def
        l0 r0 nl nr A[THEN conjunct1] A[THEN conjunct2] B[THEN conjunct1] B[THEN conjunct2]
        C[THEN conjunct2] D[THEN conjunct2])
qed

theorem persistence_state_machine_witness:
  "shows_left_warning
     (feed_warning init_WarningSystem
        [([''car''], [''truck'']), ([''bus''], [''car'']), ([''car''], [''bus''])])
   \<and> shows_right_warning
     (feed_warning init_WarningSystem
        [([''car''], [''truck'']), ([''bus''], [''car'']), ([''car''], [''bus''])])
   \<and> shows_left_warning
     (feed_warning
        (update_warning_persistence (feed_warning init_WarningSystem [([''car''], [])]) [] [])
        [([''car''], [''truck'']), ([''bus''], [''car'']), ([''car''], [''bus''])])
   \<and> shows_right_warning
     (feed_warning
        (update_warning_persistence (feed_warning init_WarningSystem [([''car''], [])]) [] [])
        [([''car''], [''truck'']), ([''bus''], [''car'']), ([''car''], [''bus''])])"
  using persistence_state_machine
          [where fs = "[([''car''], [''truck'']), ([''bus''], [''car'']), ([''car''], [''bus''])]"
             and gs = "[([''car''], [])]" and l = "[]" and r = "[]"
             and ws = init_WarningSystem and c = True]
  by simp


section \<open>Depth sampling\<close>

text \<open>
  C9, as the code has it. For every depth map with at least one row and one column,
  every integer centre and every radius, \<^verbatim>\<open>get_depth_at_location\<close> raises nothing:
  every index pair the loop reads lies in [0, height - 1] x [0, width - 1], so that
  the read succeeds, and the samples collected are those at the clamped positions,
  radius times radius of them for a positive radius and none otherwise. (The same
  loop, written out in \<^verbatim>\<open>get_close_vehicles_by_side\<close> and \<^verbatim>\<open>check_collision_alert\<close>,
  collects exactly these samples.) The value returned is the median of the samples
  when their number is odd. When their number is even and not zero, the value is the
  float32 mean of the two middle samples: their sum rounded to float32, infinite when
  it leaves the float32 range, then halved. Without samples the value is
  \<^verbatim>\<open>nan\<close>.
\<close>

theorem get_depth_at_location_clamped:
  assumes "spec_nonempty depth_map"
  shows "sample_depth_values depth_map center_x center_y sample_size
           = Inr (spec_samples depth_map center_x center_y sample_size)
         \<and> (\<forall>(dx, dy) \<in> set (sample_offsets sample_size).
               0 \<le> sample_y depth_map center_y dy
               \<and> sample_y depth_map center_y dy < int (shape0 depth_map)
               \<and> 0 \<le> sample_x depth_map center_x dx
               \<and> sample_x depth_map center_x dx < int (shape1 depth_map)
               \<and> ndarray_get depth_map (sample_y depth_map center_y dy)
                    (sample_x depth_map center_x dx)
                  = Inr (elems depth_map (nat (sample_y depth_map center_y dy))
                           (nat (sample_x depth_map center_x dx))))
         \<and> length (spec_samples depth_map center_x center_y sample_size)
             = nat sample_size * nat sample_size
         \<and> (spec_samples depth_map center_x center_y sample_size = [] \<longrightarrow>
               get_depth_at_location depth_map center_x center_y sample_size = Inr NaN)
         \<and> (odd (length (spec_samples depth_map center_x center_y sample_size)) \<longrightarrow>
               (\<exists>m. get_depth_at_location depth_map center_x center_y sample_size
                       = Inr (Finite m)
                    \<and> spec_median_is (spec_samples depth_map center_x center_y sample_size) m))
         \<and> (spec_samples depth_map center_x center_y sample_size \<noteq> []
              \<and> even (length (spec_samples depth_map center_x center_y sample_size)) \<longrightarrow>
               (\<exists>lo hi.
                  spec_kth (spec_samples depth_map center_x center_y sample_size)
                    (length (spec_samples depth_map center_x center_y sample_size) div 2 - 1) lo
                  \<and> spec_kth (spec_samples depth_map center_x center_y sample_size)
                      (length (spec_samples depth_map center_x center_y sample_size) div 2) hi
                  \<and> get_depth_at_location depth_map center_x center_y sample_size
                      = Inr (half_sum lo hi)))"
proof -
  let ?xs = "spec_samples depth_map center_x center_y sample_size"
  have r: "0 < shape0 depth_map" and c: "0 < shape1 depth_map"
    using assms by (simp_all add: spec_nonempty_def)
  note s = sample_depth_values_spec[OF r c, of center_x center_y sample_size]
  have g: "get_depth_at_location depth_map center_x center_y sample_size
             = Inr (np_median ?xs)"
    by (simp add: get_depth_at_location_def s)
  have i: "\<And>dx dy. 0 \<le> sample_y depth_map center_y dy
               \<and> sample_y depth_map center_y dy < int (shape0 depth_map)
               \<and> 0 \<le> sample_x depth_map center_x dx
               \<and> sample_x depth_map center_x dx < int (shape1 depth_map)
               \<and> ndarray_get depth_map (sample_y depth_map center_y dy)
                    (sample_x depth_map center_x dx)
                  = Inr (elems depth_map (nat (sample_y depth_map center_y dy))
                           (nat (sample_x depth_map center_x dx)))"
    using sample_x_in_range[OF c] sample_y_in_range[OF r] ndarray_get_sample[OF r c]
    by blast
  have e: "?xs = [] \<Longrightarrow> get_depth_at_location depth_map center_x center_y sample_size = Inr NaN"
    by (simp add: g np_median_empty)
  have o: "odd (length ?xs) \<Longrightarrow>
             \<exists>m. get_depth_at_location depth_map center_x center_y sample_size = Inr (Finite m)
                \<and> spec_median_is ?xs m"
    using np_median_odd_is[of ?xs] by (simp add: g)
  have v: "?xs \<noteq> [] \<and> even (length ?xs) \<Longrightarrow>
             \<exists>lo hi. spec_kth ?xs (length ?xs div 2 - 1) lo \<and> spec_kth ?xs (length ?xs div 2) hi
                \<and> get_depth_at_location depth_map center_x center_y sample_size
                    = Inr (half_sum lo hi)"
    using np_median_even_is[of ?xs] by (simp add: g)
  from s i length_spec_samples[of depth_map center_x center_y sample_size] e o v
  show ?thesis by blast
qed

theorem get_depth_at_location_clamped_witness:
  "spec_nonempty (rising_map 596)
   \<and> get_depth_at_location (rising_map 596) 6 9 5 = Inr (Finite 601)
   \<and> spec_median_is (spec_samples (rising_map 596) 6 9 5) 601
   \<and> sample_depth_values (rising_map 596) (-4) 10 5
       = Inr (spec_samples (rising_map 596) (-4) 10 5)
   \<and> sample_x (rising_map 596) (-4) 3 = 0 \<and> sample_y (rising_map 596) 10 (-5) = 3"
proof -
  have n: "spec_nonempty (rising_map 596)"
    by (simp add: spec_nonempty_def rising_map_def)
  note t = get_depth_at_location_clamped[OF n, of 6 9 5]
  note u = get_depth_at_location_clamped[OF n, of "-4" 10 5]
  have od: "odd (length (spec_samples (rising_map 596) 6 9 5))"
    by (rule odd_samples_5)
  have k: "spec_kth (spec_samples (rising_map 596) 6 9 5) 12 601"
    by code_simp
  from t od obtain m where
    g: "get_depth_at_location (rising_map 596) 6 9 5 = Inr (Finite m)"
    and m: "spec_median_is (spec_samples (rising_map 596) 6 9 5) m"
    by blast
  from m have "spec_kth (spec_samples (rising_map 596) 6 9 5) 12 m"
    by (simp add: spec_median_is_def length_spec_samples)
  from spec_kth_unique[OF this k] have e: "m = 601" .
  have s: "sample_depth_values (rising_map 596) (-4) 10 5
       = Inr (spec_samples (rising_map 596) (-4) 10 5)"
    using u by (elim conjE)
  have x: "sample_x (rising_map 596) (-4) 3 = 0 \<and> sample_y (rising_map 596) 10 (-5) = 3"
    by (simp add: sample_x_def sample_y_def rising_map_def)
  from n g m e s x show ?thesis by simp
qed

text \<open>
  The value returned is not always the median. With radius 2 around column 1 of the
  one-row map (1, 2^24, 2^24) the samples are 1, 1, 2^24, 2^24; their median is
  (1 + 2^24) / 2 = 8388608.5, but the sum 1 + 2^24 is rounded to 2^24 in float32 and
  the value returned is 8388608. With radius 0 nothing is sampled and the value is
  \<^verbatim>\<open>nan\<close>.
\<close>

theorem get_depth_at_location_clamped_counterexample:
  "spec_nonempty step_map
   \<and> spec_samples step_map 1 0 2 = [1, 1, 16777216, 16777216]
   \<and> spec_median_is (spec_samples step_map 1 0 2) (16777217 / 2)
   \<and> \<not> spec_median_is (spec_samples step_map 1 0 2) 8388608
   \<and> get_depth_at_location step_map 1 0 2 = Inr (Finite 8388608)
   \<and> spec_samples step_map 1 0 0 = []
   \<and> get_depth_at_location step_map 1 0 0 = Inr NaN"
proof -
  have n: "spec_nonempty step_map"
    by (simp add: spec_nonempty_def step_map_def)
  have r: "0 < shape0 step_map" and c: "0 < shape1 step_map"
    by (simp_all add: step_map_def)
  have s: "spec_samples step_map 1 0 2 = [1, 1, 16777216, 16777216]"
    by (simp add: spec_samples_def spec_offsets_2 spec_clamp_def step_map_def)
  have z: "spec_samples step_map 1 0 0 = []"
    by (simp add: spec_samples_def spec_offsets_def)
  have a: "spec_median_is [1, 1, 16777216, 16777216] (16777217 / 2)"
    by (simp add: spec_median_is_def spec_kth_def)
  have b: "\<not> spec_median_is [1, 1, 16777216, 16777216] 8388608"
    by (simp add: spec_median_is_def spec_kth_def)
  have m: "np_median [1, 1, 16777216, 16777216] = Finite 8388608"
    by (simp add: np_median_def half_sum_examples)
  have g: "get_depth_at_location step_map 1 0 2 = Inr (Finite 8388608)"
    by (simp add: get_depth_at_location_def sample_depth_values_spec[OF r c] s m)
  have h: "get_depth_at_location step_map 1 0 0 = Inr NaN"
    by (simp add: get_depth_at_location_def sample_depth_values_spec[OF r c] z np_median_empty)
  from n s z a b g h show ?thesis by simp
qed


section \<open>Collision condition and proximity classification\<close>

text \<open>
  C3, as the code has it. The centre of a box is computed in float32: each corner sum
  \<^verbatim>\<open>x1 + x2\<close>, \<^verbatim>\<open>y1 + y2\<close> is rounded to float32, halved and truncated to a pixel.
  Take a detections list in which every detection's class index is a key of
  \<^verbatim>\<open>class_names\<close> and in which every detection with confidence above
  \<^verbatim>\<open>CONFIDENCE_THRESHOLD\<close> and a road class that meets the ROI rectangle has a finite
  float32 centre (neither corner sum leaves the float32 range), any depth map that is
  present and any frame size. Then \<^verbatim>\<open>check_collision_alert\<close> returns true exactly when
  some detection with confidence above \<^verbatim>\<open>CONFIDENCE_THRESHOLD\<close> and a road class meets
  the ROI rectangle and has a median sampled depth around the pixel of its float32
  centre (radius \<^verbatim>\<open>DEPTH_COLLISION_SAMPLE_SIZE\<close>, offsets in steps of 2, clamped to the
  map) strictly above \<^verbatim>\<open>COLLISION_THRESHOLD\<close>; and when the map has at least one row
  and one column, the call returns false in every other case.
\<close>

theorem check_collision_alert_iff:
  assumes "spec_known_classes class_names results"
    and "\<forall>b \<in> set (detections_of results).
           spec_road_relevant b
           \<and> is_in_collision_roi (x1 b) (y1 b) (x2 b) (y2 b) frame_width frame_height
           \<longrightarrow> spec_finite_center b"
  shows "(check_collision_alert results (Some depth_map) frame_width frame_height class_names
            = Inr True)
           = (\<exists>b \<in> set (detections_of results).
                spec_collides depth_map frame_width frame_height b)
         \<and> (spec_nonempty depth_map \<longrightarrow>
              check_collision_alert results (Some depth_map) frame_width frame_height
                class_names
              = Inr (\<exists>b \<in> set (detections_of results).
                       spec_collides depth_map frame_width frame_height b))"
proof (cases "spec_nonempty depth_map")
  case True
  have k: "\<forall>b \<in> set (detections_of results). cls b \<in> dom class_names"
    using assms(1) by (simp add: spec_known_classes_def)
  have r: "0 < shape0 depth_map" and c: "0 < shape1 depth_map"
    using True by (simp_all add: spec_nonempty_def)
  show ?thesis
    by (simp add: check_collision_alert_def collision_results_depth[OF k r c assms(2)])
next
  case False
  then have e: "shape0 depth_map = 0 \<or> shape1 depth_map = 0"
    by (auto simp add: spec_nonempty_def)
  have a: "check_collision_alert results (Some depth_map) frame_width frame_height class_names
             \<noteq> Inr True"
    unfolding check_collision_alert_def
    using collision_results_empty_map[OF e, of frame_width frame_height class_names results
            False True]
    by blast
  have b: "\<not> (\<exists>b \<in> set (detections_of results).
                spec_collides depth_map frame_width frame_height b)"
    using False by (simp add: spec_collides_def spec_depth_above_def)
  from a b False show ?thesis by simp
qed

theorem check_collision_alert_iff_witness:
  "spec_known_classes names_example [Some [car_left, truck_right]]
   \<and> spec_finite_center car_left
   \<and> check_collision_alert [Some [car_left, truck_right]] (Some (flat_map 700)) 800 600
       names_example = Inr True
   \<and> check_collision_alert [Some [truck_right]] (Some (flat_map 700)) 800 600
       names_example = Inr False
   \<and> spec_finite_center edge_car_11
   \<and> check_collision_alert [Some [edge_car_11]] (Some (rising_map 596)) 16 12
       names_example = Inr True"
proof -
  have k: "spec_known_classes names_example [Some [truck_right]]"
    by (simp add: spec_known_classes_def detections_of_def names_example_def truck_right_def)
  have k': "spec_known_classes names_example [Some [edge_car_11]]"
    by (simp add: spec_known_classes_def detections_of_def names_example_def edge_car_11_def)
  have f: "\<forall>b \<in> set (detections_of [Some [car_left, truck_right]]).
             spec_road_relevant b \<and> is_in_collision_roi (x1 b) (y1 b) (x2 b) (y2 b) 800 600
             \<longrightarrow> spec_finite_center b"
    and f': "\<forall>b \<in> set (detections_of [Some [truck_right]]).
             spec_road_relevant b \<and> is_in_collision_roi (x1 b) (y1 b) (x2 b) (y2 b) 800 600
             \<longrightarrow> spec_finite_center b"
    and f'': "\<forall>b \<in> set (detections_of [Some [edge_car_11]]).
             spec_road_relevant b \<and> is_in_collision_roi (x1 b) (y1 b) (x2 b) (y2 b) 16 12
             \<longrightarrow> spec_finite_center b"
    by (simp_all add: detections_of_def finite_center_examples)
  have n: "spec_nonempty (rising_map 596)"
    by (simp add: spec_nonempty_def rising_map_def)
  have e: "spec_collides (rising_map 596) 16 12 edge_car_11"
    by (simp add: spec_collides_def spec_depth_above_def road_relevant_examples roi_examples
        center_examples n DEPTH_COLLISION_SAMPLE_SIZE_def COLLISION_THRESHOLD_def
        median_above_sloping)
  note a = check_collision_alert_iff[OF example_known f, of "flat_map 700"]
    and b = check_collision_alert_iff[OF k f', of "flat_map 700"]
    and c = check_collision_alert_iff[OF k' f'', of "rising_map 596"]
  have "check_collision_alert [Some [car_left, truck_right]] (Some (flat_map 700)) 800 600
       names_example = Inr True"
    using a by (simp add: flat_map_nonempty detections_of_def collides_examples)
  moreover have "check_collision_alert [Some [truck_right]] (Some (flat_map 700)) 800 600
       names_example = Inr False"
    using b by (simp add: flat_map_nonempty detections_of_def collides_examples)
  moreover have "check_collision_alert [Some [edge_car_11]] (Some (rising_map 596)) 16 12
       names_example = Inr True"
    using c by (simp add: n detections_of_def e)
  ultimately show ?thesis
    using example_known finite_center_examples by simp
qed

text \<open>
  With the centre \<open>(x1 + x2) / 2\<close> taken as a number the statement fails. The car
  with x1 = 1 - 2^-24 and x2 = 11 has its centre in column 5, where the median depth
  of the rising map is 600, not above the threshold; but x1 + x2 is rounded to 12 in
  float32, the code samples around column 6, reads 601 and returns true. And the car
  whose corner sum 2^127 + 2^127 is infinite in float32 has a centre and a median
  depth of 700 there, yet the call raises \<^verbatim>\<open>OverflowError\<close> and returns nothing.
\<close>

theorem check_collision_alert_counterexample:
  "spec_known_classes names_example [Some [edge_car_11]]
   \<and> \<not> spec_exact_collides (rising_map 596) 16 12 edge_car_11
   \<and> check_collision_alert [Some [edge_car_11]] (Some (rising_map 596)) 16 12 names_example
       = Inr True
   \<and> spec_known_classes names_example [Some [far_car]]
   \<and> spec_exact_collides (flat_map 700) (2 ^ 128) 600 far_car
   \<and> check_collision_alert [Some [far_car]] (Some (flat_map 700)) (2 ^ 128) 600 names_example
       = Inl OverflowError"
proof -
  have k: "spec_known_classes names_example [Some [edge_car_11]]"
    by (simp add: spec_known_classes_def detections_of_def names_example_def edge_car_11_def)
  have k': "spec_known_classes names_example [Some [far_car]]"
    by (simp add: spec_known_classes_def detections_of_def names_example_def far_car_def)
  have a: "\<not> spec_exact_collides (rising_map 596) 16 12 edge_car_11"
    by (simp add: spec_exact_collides_def spec_exact_depth_above_def center_examples
        DEPTH_COLLISION_SAMPLE_SIZE_def COLLISION_THRESHOLD_def median_above_sloping)
  have b: "check_collision_alert [Some [edge_car_11]] (Some (rising_map 596)) 16 12
             names_example = Inr True"
    by code_simp
  have roi: "is_in_collision_roi (x1 far_car) (y1 far_car) (x2 far_car) (y2 far_car)
               (2 ^ 128) 600"
    by (simp add: is_in_collision_roi_def GRID_COLS_def GRID_ROWS_def Let_def far_car_def)
  have d: "spec_exact_depth_above (flat_map 700) far_car 5 600"
  proof -
    have "np_median (spec_samples (flat_map 700) cx cy 5) = Finite 700" for cx cy
    proof (rule np_median_constant)
      show "\<forall>x \<in> set (spec_samples (flat_map 700) cx cy 5). x = 700"
        by (auto simp add: spec_samples_def flat_map_def)
      show "odd (length (spec_samples (flat_map 700) cx cy 5))"
        by (rule odd_samples_5)
    qed
    then show ?thesis
      by (simp add: spec_exact_depth_above_def flat_map_nonempty
          np_gt_median_odd[OF odd_samples_5, symmetric])
  qed
  have c: "spec_exact_collides (flat_map 700) (2 ^ 128) 600 far_car"
    using roi d
    by (simp add: spec_exact_collides_def road_relevant_examples
        DEPTH_COLLISION_SAMPLE_SIZE_def COLLISION_THRESHOLD_def)
  have q: "conf far_car > CONFIDENCE_THRESHOLD \<and> cls far_car \<in> set ROAD_CLASSES_values"
    using road_relevant_examples(5) by (simp add: spec_road_relevant_def road_values)
  have nm: "names_example (cls far_car) = Some ''car''"
    by (simp add: names_example_def far_car_def)
  have h: "py_int (half_sum (x1 far_car) (x2 far_car)) = Inl OverflowError"
    by (simp add: far_car_def f32_eval)
  have e: "check_collision_alert [Some [far_car]] (Some (flat_map 700)) (2 ^ 128) 600
             names_example = Inl OverflowError"
    using roi by (simp add: check_collision_alert_def nm q h)
  from k k' a b c e show ?thesis by simp
qed

text \<open>
  C4, as the code has it. Take a detections list in which every detection's class
  index is a key of \<^verbatim>\<open>class_names\<close> and in which every detection with confidence
  above \<^verbatim>\<open>CONFIDENCE_THRESHOLD\<close> and a road class has a finite float32 centre, a depth
  map with at least one row and one column and any frame width. Then
  \<^verbatim>\<open>get_close_vehicles_by_side\<close> returns two lists that hold one class name for each
  detection with confidence above \<^verbatim>\<open>CONFIDENCE_THRESHOLD\<close>, a road class and a median
  sampled depth around the pixel of its float32 centre (radius 5) strictly above
  \<^verbatim>\<open>CLOSE_DEPTH_THRESHOLD\<close>: in the left list when the float32 centre, the rounded
  sum x1 + x2 halved, is below frame\_width / 2, in the right list otherwise, in
  detection order, duplicates kept, and nothing for any other detection.
\<close>

theorem get_close_vehicles_by_side_partition:
  assumes "spec_known_classes class_names results" "spec_nonempty depth_map"
    and "\<forall>b \<in> set (detections_of results). spec_road_relevant b \<longrightarrow> spec_finite_center b"
  shows "get_close_vehicles_by_side results (Some depth_map) frame_width class_names
           = Inr (map (\<lambda>b. the (class_names (cls b)))
                    (filter (\<lambda>b. spec_close depth_map b \<and> spec_on_left frame_width b)
                       (detections_of results)),
                  map (\<lambda>b. the (class_names (cls b)))
                    (filter (\<lambda>b. spec_close depth_map b \<and> \<not> spec_on_left frame_width b)
                       (detections_of results)))
         \<and> (\<forall>l r. get_close_vehicles_by_side results (Some depth_map) frame_width class_names
                     = Inr (l, r)
                \<longrightarrow> length l + length r
                    = length (filter (spec_close depth_map) (detections_of results)))"
proof -
  have k: "\<forall>b \<in> set (detections_of results). cls b \<in> dom class_names"
    using assms(1) by (simp add: spec_known_classes_def)
  have r: "0 < shape0 depth_map" and c: "0 < shape1 depth_map"
    using assms(2) by (simp_all add: spec_nonempty_def)
  have e: "get_close_vehicles_by_side results (Some depth_map) frame_width class_names
           = Inr (map (\<lambda>b. the (class_names (cls b)))
                    (filter (\<lambda>b. spec_close depth_map b \<and> spec_on_left frame_width b)
                       (detections_of results)),
                  map (\<lambda>b. the (class_names (cls b)))
                    (filter (\<lambda>b. spec_close depth_map b \<and> \<not> spec_on_left frame_width b)
                       (detections_of results)))"
    by (simp add: get_close_vehicles_by_side_def close_vehicles_results_depth[OF k r c assms(3)])
  show ?thesis
    unfolding e by (auto simp add: length_filter_split)
qed

theorem get_close_vehicles_by_side_partition_witness:
  "spec_known_classes names_example [Some [car_left, truck_right]]
   \<and> spec_nonempty (flat_map 1300)
   \<and> spec_finite_center car_left \<and> spec_finite_center truck_right
   \<and> get_close_vehicles_by_side [Some [car_left, truck_right]] (Some (flat_map 1300)) 800
       names_example = Inr ([''car''], [''truck''])
   \<and> spec_nonempty (rising_map 1300)
   \<and> spec_finite_center edge_car_15
   \<and> get_close_vehicles_by_side [Some [edge_car_15]] (Some (rising_map 1300)) 16
       names_example = Inr ([], [''car''])"
proof -
  have k': "spec_known_classes names_example [Some [edge_car_15]]"
    by (simp add: spec_known_classes_def detections_of_def names_example_def edge_car_15_def)
  have f: "\<forall>b \<in> set (detections_of [Some [car_left, truck_right]]).
             spec_road_relevant b \<longrightarrow> spec_finite_center b"
    and f': "\<forall>b \<in> set (detections_of [Some [edge_car_15]]).
             spec_road_relevant b \<longrightarrow> spec_finite_center b"
    by (simp_all add: detections_of_def finite_center_examples)
  have n: "spec_nonempty (rising_map 1300)"
    by (simp add: spec_nonempty_def rising_map_def)
  have e: "spec_close (rising_map 1300) edge_car_15"
    by (simp add: spec_close_def spec_depth_above_def road_relevant_examples center_examples n
        CLOSE_DEPTH_THRESHOLD_def median_above_sloping)
  note a = get_close_vehicles_by_side_partition[OF example_known flat_map_nonempty f, of 1300 800]
    and b = get_close_vehicles_by_side_partition[OF k' n f', of 16]
  have "get_close_vehicles_by_side [Some [car_left, truck_right]] (Some (flat_map 1300)) 800
       names_example = Inr ([''car''], [''truck''])"
    using a
    by (simp add: detections_of_def close_examples side_examples)
       (simp add: names_example_def car_left_def truck_right_def)
  moreover have "get_close_vehicles_by_side [Some [edge_car_15]] (Some (rising_map 1300)) 16
       names_example = Inr ([], [''car''])"
    using b
    by (simp add: detections_of_def e side_examples)
       (simp add: names_example_def edge_car_15_def)
  ultimately show ?thesis
    using example_known flat_map_nonempty n finite_center_examples by simp
qed

text \<open>
  With the centre \<open>(x1 + x2) / 2\<close> taken as a number the statement fails. The car
  with x1 = 1 - 2^-24 and x2 = 15 is close on the rising map and has its centre left
  of the middle of a frame 16 wide; but x1 + x2 is rounded to 16 in float32, the
  centre is 8, and the car is put in the right list. The car with x2 = 11 has, around
  column 5 of its centre, a median depth of 1200, not above the threshold; the code
  samples around column 6, reads 1201 and lists the car. The car whose corner sum is
  infinite in float32 makes the call raise \<^verbatim>\<open>OverflowError\<close>, and a depth map without
  rows or columns makes it raise \<^verbatim>\<open>IndexError\<close> at the first road-relevant detection.
\<close>

theorem get_close_vehicles_by_side_counterexample:
  "spec_known_classes names_example [Some [edge_car_15]]
   \<and> spec_road_relevant edge_car_15
   \<and> spec_exact_depth_above (rising_map 1300) edge_car_15 5 (of_int CLOSE_DEPTH_THRESHOLD)
   \<and> spec_exact_on_left 16 edge_car_15
   \<and> get_close_vehicles_by_side [Some [edge_car_15]] (Some (rising_map 1300)) 16 names_example
       = Inr ([], [''car''])
   \<and> spec_known_classes names_example [Some [edge_car_11]]
   \<and> \<not> spec_exact_depth_above (rising_map 1196) edge_car_11 5 (of_int CLOSE_DEPTH_THRESHOLD)
   \<and> get_close_vehicles_by_side [Some [edge_car_11]] (Some (rising_map 1196)) 800 names_example
       = Inr ([''car''], [])
   \<and> spec_known_classes names_example [Some [far_car]]
   \<and> get_close_vehicles_by_side [Some [far_car]] (Some (flat_map 1300)) 800 names_example
       = Inl OverflowError
   \<and> spec_known_classes names_example [Some [truck_right]]
   \<and> get_close_vehicles_by_side [Some [truck_right]] (Some empty_map) 800 names_example
       = Inl IndexError"
proof -
  have k: "spec_known_classes names_example [Some [edge_car_15]]"
    "spec_known_classes names_example [Some [edge_car_11]]"
    "spec_known_classes names_example [Some [far_car]]"
    "spec_known_classes names_example [Some [truck_right]]"
    by (simp_all add: spec_known_classes_def detections_of_def names_example_def
        edge_car_15_def edge_car_11_def far_car_def truck_right_def)
  have n: "spec_nonempty (rising_map 1300)" "spec_nonempty (rising_map 1196)"
    by (simp_all add: spec_nonempty_def rising_map_def)
  have a: "spec_exact_depth_above (rising_map 1300) edge_car_15 5 (of_int CLOSE_DEPTH_THRESHOLD)"
    by (simp add: spec_exact_depth_above_def center_examples n CLOSE_DEPTH_THRESHOLD_def
        median_above_sloping)
  have b: "get_close_vehicles_by_side [Some [edge_car_15]] (Some (rising_map 1300)) 16
             names_example = Inr ([], [''car''])"
    by code_simp
  have c: "\<not> spec_exact_depth_above (rising_map 1196) edge_car_11 5
               (of_int CLOSE_DEPTH_THRESHOLD)"
    unfolding spec_exact_depth_above_def center_examples CLOSE_DEPTH_THRESHOLD_def
    by code_simp
  have d: "get_close_vehicles_by_side [Some [edge_car_11]] (Some (rising_map 1196)) 800
             names_example = Inr ([''car''], [])"
    by code_simp
  have q: "conf far_car > CONFIDENCE_THRESHOLD \<and> cls far_car \<in> set ROAD_CLASSES_values"
    using road_relevant_examples(5) by (simp add: spec_road_relevant_def road_values)
  have nm: "names_example (cls far_car) = Some ''car''"
    by (simp add: names_example_def far_car_def)
  have h: "py_int (half_sum (x1 far_car) (x2 far_car)) = Inl OverflowError"
    by (simp add: far_car_def f32_eval)
  have e: "get_close_vehicles_by_side [Some [far_car]] (Some (flat_map 1300)) 800
             names_example = Inl OverflowError"
    by (simp add: get_close_vehicles_by_side_def close_vehicles_box_def nm q h)
  have em: "shape0 empty_map = 0 \<or> shape1 empty_map = 0" by (simp add: empty_map_def)
  have nt: "names_example (cls truck_right) = Some ''truck''"
    by (simp add: names_example_def truck_right_def)
  have qt: "conf truck_right > CONFIDENCE_THRESHOLD \<and> cls truck_right \<in> set ROAD_CLASSES_values"
    using road_relevant_examples(2) by (simp add: spec_road_relevant_def road_values)
  have ct: "py_int (half_sum (x1 truck_right) (x2 truck_right)) = Inr 600"
    "py_int (half_sum (y1 truck_right) (y2 truck_right)) = Inr 200"
    using center_of_finite[OF finite_center_examples(2)] by (simp_all add: center_examples)
  have i: "get_close_vehicles_by_side [Some [truck_right]] (Some empty_map) 800 names_example
             = Inl IndexError"
    by (simp add: get_close_vehicles_by_side_def close_vehicles_box_def nt qt ct
        sample_depth_values_empty_map[OF em])
  from k road_relevant_examples(4) a side_examples(4) b c d e i show ?thesis by simp
qed


section \<open>The class-name lookup\<close>

text \<open>
  C10, as the code has it. Both \<^verbatim>\<open>get_close_vehicles_by_side\<close> and
  \<^verbatim>\<open>check_collision_alert\<close> look the class name up before they apply the confidence
  and road-class filter: a first detection whose class index is not a key of
  \<^verbatim>\<open>class_names\<close> makes either call raise \<^verbatim>\<open>KeyError\<close>, whatever its confidence and
  class. \<^verbatim>\<open>get_close_vehicles_by_side\<close> returns only when every detection's class
  index is a key of \<^verbatim>\<open>class_names\<close>, and \<^verbatim>\<open>check_collision_alert\<close> returns false
  only then.
\<close>

theorem class_name_lookup_before_filter:
  "(class_names (cls b) = None \<longrightarrow>
      get_close_vehicles_by_side (Some (b # bs) # rs) depth_map frame_width class_names
        = Inl KeyError
      \<and> check_collision_alert (Some (b # bs) # rs) depth_map frame_width frame_height
          class_names = Inl KeyError)
   \<and> ((\<exists>v. get_close_vehicles_by_side results depth_map frame_width class_names = Inr v)
        \<longrightarrow> spec_known_classes class_names results)
   \<and> (check_collision_alert results depth_map frame_width frame_height class_names = Inr False
        \<longrightarrow> spec_known_classes class_names results)"
proof -
  have a: "class_names (cls b) = None \<Longrightarrow>
      get_close_vehicles_by_side (Some (b # bs) # rs) depth_map frame_width class_names
        = Inl KeyError"
    by (simp add: get_close_vehicles_by_side_def close_vehicles_box_def)
  have b: "class_names (cls b) = None \<Longrightarrow>
      check_collision_alert (Some (b # bs) # rs) depth_map frame_width frame_height
          class_names = Inl KeyError"
    by (simp add: check_collision_alert_def)
  have c: "\<And>v. get_close_vehicles_by_side results depth_map frame_width class_names = Inr v
        \<Longrightarrow> spec_known_classes class_names results"
    unfolding get_close_vehicles_by_side_def spec_known_classes_def
    by (rule close_vehicles_results_returns)
  have d: "check_collision_alert results depth_map frame_width frame_height class_names = Inr False
        \<Longrightarrow> spec_known_classes class_names results"
    unfolding check_collision_alert_def spec_known_classes_def
    using collision_results_False by blast
  from a b c d show ?thesis by blast
qed

theorem class_name_lookup_before_filter_witness:
  "names_example (cls stray) = None
   \<and> conf stray \<le> CONFIDENCE_THRESHOLD \<and> cls stray \<notin> snd ` set ROAD_CLASSES
   \<and> get_close_vehicles_by_side [Some [stray]] None 800 names_example = Inl KeyError
   \<and> check_collision_alert [Some [stray]] (Some (flat_map 700)) 800 600 names_example
       = Inl KeyError
   \<and> \<not> spec_known_classes names_example [Some [stray]]"
proof -
  note t = class_name_lookup_before_filter
             [of names_example stray "[]" "[]" None 800 600 "[Some [stray]]"]
  note u = class_name_lookup_before_filter
             [of names_example stray "[]" "[]" "Some (flat_map 700)" 800 600 "[Some [stray]]"]
  have g: "get_close_vehicles_by_side [Some [stray]] None 800 names_example = Inl KeyError"
    using t stray_facts(1) by (elim conjE) simp
  have n: "\<not> spec_known_classes names_example [Some [stray]]"
    using stray_facts(1) by (auto simp add: spec_known_classes_def detections_of_def)
  have c: "check_collision_alert [Some [stray]] (Some (flat_map 700)) 800 600 names_example
       = Inl KeyError"
    using u stray_facts(1) by (elim conjE) simp
  from g n c stray_facts show ?thesis by blast
qed

text \<open>
  \<^verbatim>\<open>check_collision_alert\<close> can return true although a class index has no name:
  the \<^verbatim>\<open>break\<close> that follows a collision leaves the loop over the boxes of that
  result before the later boxes are looked up.
\<close>

theorem class_name_lookup_counterexample:
  "\<not> spec_known_classes names_example [Some [car_left, stray]]
   \<and> check_collision_alert [Some [car_left, stray]] (Some (flat_map 700)) 800 600
       names_example = Inr True"
proof -
  have n: "\<not> spec_known_classes names_example [Some [car_left, stray]]"
    using stray_facts(1) by (auto simp add: spec_known_classes_def detections_of_def)
  have k: "cls car_left \<in> dom names_example"
    by (simp add: names_example_def car_left_def)
  have r: "0 < shape0 (flat_map 700)" and c: "0 < shape1 (flat_map 700)"
    by (simp_all add: flat_map_def)
  have "collision_boxes (Some (flat_map 700)) 800 600 names_example [car_left, stray] False
          = Inr True"
    by (simp only: collision_boxes_step[OF k r c finite_center_examples(1)]
        collides_examples(1) if_True)
  then show ?thesis
    using n by (simp add: check_collision_alert_def del: collision_boxes.simps)
qed


section \<open>Filtering\<close>

text \<open>
  C8, as the code has it. Adding a detection whose class index is a key of
  \<^verbatim>\<open>class_names\<close> and whose confidence is at most \<^verbatim>\<open>CONFIDENCE_THRESHOLD\<close> (0.4, say)
  or whose class is no road class changes nothing: for every results list, position
  of the new detection, depth map (present or absent) and frame size,
  \<^verbatim>\<open>get_close_vehicles_by_side\<close>, \<^verbatim>\<open>check_collision_alert\<close> and the frame pipeline (hence
  all three counters) give what they give without it.
\<close>

theorem inert_detection_changes_nothing:
  assumes "cls b \<in> dom class_names"
    and "conf b \<le> CONFIDENCE_THRESHOLD \<or> cls b \<notin> snd ` set ROAD_CLASSES"
  shows "get_close_vehicles_by_side (rs1 @ Some (bs1 @ b # bs2) # rs2) depth_map frame_width
           class_names
         = get_close_vehicles_by_side (rs1 @ Some (bs1 @ bs2) # rs2) depth_map frame_width
             class_names
       \<and> check_collision_alert (rs1 @ Some (bs1 @ b # bs2) # rs2) depth_map frame_width
           frame_height class_names
         = check_collision_alert (rs1 @ Some (bs1 @ bs2) # rs2) depth_map frame_width
             frame_height class_names
       \<and> process_frame class_names ws (rs1 @ Some (bs1 @ b # bs2) # rs2) depth_map frame_width
           frame_height
         = process_frame class_names ws (rs1 @ Some (bs1 @ bs2) # rs2) depth_map frame_width
             frame_height
       \<and> get_close_vehicles_by_side (rs1 @ Some [b] # rs2) depth_map frame_width class_names
         = get_close_vehicles_by_side (rs1 @ None # rs2) depth_map frame_width class_names
       \<and> check_collision_alert (rs1 @ Some [b] # rs2) depth_map frame_width frame_height
           class_names
         = check_collision_alert (rs1 @ None # rs2) depth_map frame_width frame_height
             class_names
       \<and> process_frame class_names ws (rs1 @ Some [b] # rs2) depth_map frame_width frame_height
         = process_frame class_names ws (rs1 @ None # rs2) depth_map frame_width frame_height"
proof -
  have n: "\<not> spec_road_relevant b"
    using assms(2) by (auto simp add: spec_road_relevant_def)
  have g1: "get_close_vehicles_by_side (rs1 @ Some (bs1 @ b # bs2) # rs2) depth_map frame_width
           class_names
         = get_close_vehicles_by_side (rs1 @ Some (bs1 @ bs2) # rs2) depth_map frame_width
             class_names"
    unfolding get_close_vehicles_by_side_def
    by (rule close_vehicles_results_inert[OF assms(1) n])
  have c1: "check_collision_alert (rs1 @ Some (bs1 @ b # bs2) # rs2) depth_map frame_width
           frame_height class_names
         = check_collision_alert (rs1 @ Some (bs1 @ bs2) # rs2) depth_map frame_width
             frame_height class_names"
    unfolding check_collision_alert_def
    by (rule collision_results_inert[OF assms(1) n])
  have g2: "get_close_vehicles_by_side (rs1 @ Some [b] # rs2) depth_map frame_width class_names
         = get_close_vehicles_by_side (rs1 @ None # rs2) depth_map frame_width class_names"
    unfolding get_close_vehicles_by_side_def
    by (rule close_vehicles_results_inert_new[OF assms(1) n])
  have c2: "check_collision_alert (rs1 @ Some [b] # rs2) depth_map frame_width frame_height
           class_names
         = check_collision_alert (rs1 @ None # rs2) depth_map frame_width frame_height
             class_names"
    unfolding check_collision_alert_def
    by (rule collision_results_inert_new[OF assms(1) n])
  have p1: "process_frame class_names ws (rs1 @ Some (bs1 @ b # bs2) # rs2) depth_map frame_width
           frame_height
         = process_frame class_names ws (rs1 @ Some (bs1 @ bs2) # rs2) depth_map frame_width
             frame_height"
    unfolding process_frame_def g1 c1 ..
  have p2: "process_frame class_names ws (rs1 @ Some [b] # rs2) depth_map frame_width frame_height
         = process_frame class_names ws (rs1 @ None # rs2) depth_map frame_width frame_height"
    unfolding process_frame_def g2 c2 ..
  from g1 c1 p1 g2 c2 p2 show ?thesis by blast
qed

theorem inert_detection_changes_nothing_witness:
  "cls quiet_car \<in> dom names_example \<and> conf quiet_car \<le> CONFIDENCE_THRESHOLD
   \<and> cls dog \<in> dom names_example \<and> cls dog \<notin> snd ` set ROAD_CLASSES
   \<and> get_close_vehicles_by_side [Some [car_left, quiet_car, truck_right]]
        (Some (flat_map 1300)) 800 names_example
      = get_close_vehicles_by_side [Some [car_left, truck_right]]
          (Some (flat_map 1300)) 800 names_example
   \<and> check_collision_alert [Some [dog]] (Some (flat_map 1300)) 800 600 names_example
      = check_collision_alert [None] (Some (flat_map 1300)) 800 600 names_example"
proof -
  note q = inert_detection_changes_nothing
             [of quiet_car names_example "[]" "[car_left]" "[truck_right]" "[]"
                 "Some (flat_map 1300)" 800 600 init_WarningSystem,
              OF quiet_facts(1) disjI1 [OF quiet_facts(2)]]
  note d = inert_detection_changes_nothing
             [of dog names_example "[]" "[]" "[]" "[]"
                 "Some (flat_map 1300)" 800 600 init_WarningSystem,
              OF quiet_facts(3) disjI2 [OF quiet_facts(4)]]
  have "get_close_vehicles_by_side [Some [car_left, quiet_car, truck_right]]
        (Some (flat_map 1300)) 800 names_example
      = get_close_vehicles_by_side [Some [car_left, truck_right]]
          (Some (flat_map 1300)) 800 names_example"
    using q unfolding append_Nil append_Cons by (elim conjE)
  moreover have "check_collision_alert [Some [dog]] (Some (flat_map 1300)) 800 600 names_example
      = check_collision_alert [None] (Some (flat_map 1300)) 800 600 names_example"
    using d unfolding append_Nil append_Cons by (elim conjE)
  ultimately show ?thesis
    using quiet_facts by blast
qed

text \<open>
  Without the condition on the class index the statement fails: a detection with
  confidence 0.4 and class index 99, which is no road class and has no name, turns
  both results into \<^verbatim>\<open>KeyError\<close>.
\<close>

theorem inert_detection_counterexample:
  "conf stray \<le> CONFIDENCE_THRESHOLD
   \<and> cls stray \<notin> snd ` set ROAD_CLASSES
   \<and> get_close_vehicles_by_side [Some []] (Some (flat_map 1300)) 800 names_example
       = Inr ([], [])
   \<and> get_close_vehicles_by_side [Some [stray]] (Some (flat_map 1300)) 800 names_example
       = Inl KeyError
   \<and> check_collision_alert [Some []] (Some (flat_map 1300)) 800 600 names_example = Inr False
   \<and> check_collision_alert [Some [stray]] (Some (flat_map 1300)) 800 600 names_example
       = Inl KeyError"
  by (simp add: stray_facts get_close_vehicles_by_side_def close_vehicles_box_def
      check_collision_alert_def)


section \<open>No depth map\<close>

text \<open>
  C7, as the code has it. Without a depth map \<^verbatim>\<open>check_collision_alert\<close> never returns
  true, and a frame that the pipeline completes leaves the collision counter at 0.
  When every detection's class index is a key of \<^verbatim>\<open>class_names\<close>,
  \<^verbatim>\<open>get_close_vehicles_by_side\<close> returns two empty lists, \<^verbatim>\<open>check_collision_alert\<close>
  returns false, and the pipeline updates the side counters with two empty lists and
  the collision counter with false, whatever else the detections hold.
\<close>

theorem depth_absent_degradation:
  "check_collision_alert results None frame_width frame_height class_names \<noteq> Inr True
   \<and> (\<forall>ws'. process_frame class_names ws results None frame_width frame_height = Inr ws'
          \<longrightarrow> collision_alert_frames ws' = 0)
   \<and> (spec_known_classes class_names results \<longrightarrow>
        get_close_vehicles_by_side results None frame_width class_names = Inr ([], [])
        \<and> check_collision_alert results None frame_width frame_height class_names = Inr False
        \<and> process_frame class_names ws results None frame_width frame_height
            = Inr (update_collision_persistence (update_warning_persistence ws [] []) False))"
proof -
  have a: "check_collision_alert results None frame_width frame_height class_names \<noteq> Inr True"
    unfolding check_collision_alert_def
    using collision_results_no_depth[of frame_width frame_height class_names results False True]
    by blast
  have b: "\<And>ws'. process_frame class_names ws results None frame_width frame_height = Inr ws'
          \<Longrightarrow> collision_alert_frames ws' = 0"
    by (auto simp add: process_frame_def Let_def update_collision_fields
        split: sum.splits prod.splits)
  have c: "get_close_vehicles_by_side results None frame_width class_names = Inr ([], [])"
    and d: "check_collision_alert results None frame_width frame_height class_names = Inr False"
    if k: "spec_known_classes class_names results"
  proof -
    from k have k': "\<forall>b \<in> set (detections_of results). cls b \<in> dom class_names"
      by (simp add: spec_known_classes_def)
    show "get_close_vehicles_by_side results None frame_width class_names = Inr ([], [])"
      by (simp add: get_close_vehicles_by_side_def close_vehicles_results_no_depth[OF k'])
    show "check_collision_alert results None frame_width frame_height class_names = Inr False"
      by (simp add: check_collision_alert_def collision_results_no_depth_known[OF k'])
  qed
  have e: "process_frame class_names ws results None frame_width frame_height
            = Inr (update_collision_persistence (update_warning_persistence ws [] []) False)"
    if k: "spec_known_classes class_names results"
    by (simp add: process_frame_def c[OF k] Let_def)
  from a b c d e show ?thesis by blast
qed

theorem depth_absent_degradation_witness:
  "spec_known_classes names_example [Some [car_left, truck_right]]
   \<and> get_close_vehicles_by_side [Some [car_left, truck_right]] None 800 names_example
       = Inr ([], [])
   \<and> check_collision_alert [Some [car_left, truck_right]] None 800 600 names_example
       = Inr False
   \<and> (\<exists>ws'. process_frame names_example init_WarningSystem [Some [car_left, truck_right]] None
               800 600 = Inr ws' \<and> collision_alert_frames ws' = 0)"
  using depth_absent_degradation
          [of "[Some [car_left, truck_right]]" 800 600 names_example init_WarningSystem]
        example_known
  by (simp add: update_collision_fields)

text \<open>
  Without the condition on the class indices the first part fails: for a detection
  whose class index 80 has no name the call raises \<^verbatim>\<open>KeyError\<close> and returns no lists.
\<close>

theorem depth_absent_counterexample:
  "get_close_vehicles_by_side [Some [unlisted]] None 800 names_example = Inl KeyError
   \<and> get_close_vehicles_by_side [Some [unlisted]] None 800 names_example \<noteq> Inr ([], [])"
  by (simp add: get_close_vehicles_by_side_def close_vehicles_box_def unlisted_def
      names_example_def)


section \<open>Two frames with a collision signal\<close>

text \<open>
  C1, as the code has it. The detector hands the pipeline the results and the name
  table of one model and boxes in pixel coordinates: every detection's class index is
  a key of \<^verbatim>\<open>class_names\<close>, and the float32 centre of every detection with confidence
  above \<^verbatim>\<open>CONFIDENCE_THRESHOLD\<close> and a road class is finite. Starting from the initial
  warning system (all counters 0, \<^verbatim>\<open>COLLISION_ALERT_THRESHOLD\<close> = 2), take two
  consecutive frames of this kind, each with a depth map and with at least one
  detection of confidence above \<^verbatim>\<open>CONFIDENCE_THRESHOLD\<close> and a road class that meets
  the ROI and whose median sampled depth around the pixel of its float32 centre (the
  corner sums rounded to float32, halved and truncated; radius
  \<^verbatim>\<open>DEPTH_COLLISION_SAMPLE_SIZE\<close>) is above \<^verbatim>\<open>COLLISION_THRESHOLD\<close>. Then the pipeline
  completes both frames, and \<^verbatim>\<open>should_show_collision_alert\<close> is false after the first
  and true after the second.
\<close>

theorem collision_alert_after_two_frames:
  assumes "spec_known_classes class_names results1" "spec_known_classes class_names results2"
    and "\<forall>b \<in> set (detections_of results1). spec_road_relevant b \<longrightarrow> spec_finite_center b"
    and "\<forall>b \<in> set (detections_of results2). spec_road_relevant b \<longrightarrow> spec_finite_center b"
    and "\<exists>b \<in> set (detections_of results1).
           spec_road_relevant b
           \<and> is_in_collision_roi (x1 b) (y1 b) (x2 b) (y2 b) width1 height1
           \<and> spec_depth_above depth_map1 b DEPTH_COLLISION_SAMPLE_SIZE
               (of_int COLLISION_THRESHOLD)"
    and "\<exists>b \<in> set (detections_of results2).
           spec_road_relevant b
           \<and> is_in_collision_roi (x1 b) (y1 b) (x2 b) (y2 b) width2 height2
           \<and> spec_depth_above depth_map2 b DEPTH_COLLISION_SAMPLE_SIZE
               (of_int COLLISION_THRESHOLD)"
  shows "COLLISION_ALERT_THRESHOLD = 2
         \<and> (\<exists>ws1 ws2.
           process_frame class_names init_WarningSystem results1 (Some depth_map1) width1 height1
             = Inr ws1
           \<and> \<not> should_show_collision_alert ws1
           \<and> process_frame class_names ws1 results2 (Some depth_map2) width2 height2 = Inr ws2
           \<and> should_show_collision_alert ws2)"
proof -
  have frame: "\<exists>l r. process_frame class_names ws rs (Some dm) w h
                 = Inr (update_collision_persistence (update_warning_persistence ws l r) True)"
    if k: "spec_known_classes class_names rs"
      and f: "\<forall>b \<in> set (detections_of rs). spec_road_relevant b \<longrightarrow> spec_finite_center b"
      and c: "\<exists>b \<in> set (detections_of rs).
           spec_road_relevant b
           \<and> is_in_collision_roi (x1 b) (y1 b) (x2 b) (y2 b) w h
           \<and> spec_depth_above dm b DEPTH_COLLISION_SAMPLE_SIZE (of_int COLLISION_THRESHOLD)"
    for ws rs dm w h
  proof -
    from k have k': "\<forall>b \<in> set (detections_of rs). cls b \<in> dom class_names"
      by (simp add: spec_known_classes_def)
    from f have f': "\<forall>b \<in> set (detections_of rs).
           spec_road_relevant b \<and> is_in_collision_roi (x1 b) (y1 b) (x2 b) (y2 b) w h
           \<longrightarrow> spec_finite_center b"
      by simp
    from c obtain b where b: "b \<in> set (detections_of rs)"
      and col: "spec_collides dm w h b"
      by (auto simp add: spec_collides_def)
    from col have n: "0 < shape0 dm" "0 < shape1 dm"
      by (simp_all add: spec_collides_def spec_depth_above_def spec_nonempty_def)
    from b col have ch: "check_collision_alert rs (Some dm) w h class_names = Inr True"
      by (auto simp add: check_collision_alert_def collision_results_depth[OF k' n f'])
    show ?thesis
      by (simp add: process_frame_def get_close_vehicles_by_side_def
          close_vehicles_results_depth[OF k' n f] ch Let_def) blast
  qed
  from frame[OF assms(1,3,5), of init_WarningSystem] obtain l1 r1 where
    f1: "process_frame class_names init_WarningSystem results1 (Some depth_map1) width1 height1
           = Inr (update_collision_persistence
                    (update_warning_persistence init_WarningSystem l1 r1) True)"
    by blast
  let ?ws1 = "update_collision_persistence (update_warning_persistence init_WarningSystem l1 r1) True"
  from frame[OF assms(2,4,6), of ?ws1] obtain l2 r2 where
    f2: "process_frame class_names ?ws1 results2 (Some depth_map2) width2 height2
           = Inr (update_collision_persistence (update_warning_persistence ?ws1 l2 r2) True)"
    by blast
  have n1: "\<not> should_show_collision_alert ?ws1"
    by (simp add: should_show_collision_alert_def update_collision_fields update_warning_fields
        init_fields)
  have y2: "should_show_collision_alert
              (update_collision_persistence (update_warning_persistence ?ws1 l2 r2) True)"
    by (simp add: should_show_collision_alert_def update_collision_fields update_warning_fields
        init_fields)
  from f1 f2 n1 y2 show ?thesis by (auto simp add: COLLISION_ALERT_THRESHOLD_def)
qed

theorem collision_alert_after_two_frames_witness:
  "spec_known_classes names_example [Some [car_left, truck_right]]
   \<and> spec_finite_center car_left \<and> spec_finite_center truck_right
   \<and> spec_road_relevant car_left
   \<and> is_in_collision_roi (x1 car_left) (y1 car_left) (x2 car_left) (y2 car_left) 800 600
   \<and> spec_depth_above (flat_map 700) car_left DEPTH_COLLISION_SAMPLE_SIZE
       (of_int COLLISION_THRESHOLD)
   \<and> (\<exists>ws1 ws2.
         process_frame names_example init_WarningSystem [Some [car_left, truck_right]]
           (Some (flat_map 700)) 800 600 = Inr ws1
         \<and> \<not> should_show_collision_alert ws1
         \<and> process_frame names_example ws1 [Some [car_left, truck_right]]
             (Some (flat_map 700)) 800 600 = Inr ws2
         \<and> should_show_collision_alert ws2)"
proof -
  have d: "spec_depth_above (flat_map 700) car_left DEPTH_COLLISION_SAMPLE_SIZE
       (of_int COLLISION_THRESHOLD)"
    by (simp add: DEPTH_COLLISION_SAMPLE_SIZE_def COLLISION_THRESHOLD_def flat_map_depth)
  have f: "\<forall>b \<in> set (detections_of [Some [car_left, truck_right]]).
             spec_road_relevant b \<longrightarrow> spec_finite_center b"
    by (simp add: detections_of_def finite_center_examples)
  have c: "\<exists>b \<in> set (detections_of [Some [car_left, truck_right]]).
             spec_road_relevant b
             \<and> is_in_collision_roi (x1 b) (y1 b) (x2 b) (y2 b) 800 600
             \<and> spec_depth_above (flat_map 700) b DEPTH_COLLISION_SAMPLE_SIZE
                 (of_int COLLISION_THRESHOLD)"
    using d by (simp add: detections_of_def road_relevant_examples roi_examples)
  from collision_alert_after_two_frames [OF example_known example_known f f c c]
       example_known finite_center_examples(1,2) road_relevant_examples(1) roi_examples(1) d
  show ?thesis by blast
qed

text \<open>
  With the centre \<open>(x1 + x2) / 2\<close> taken as a number the statement fails. In a frame
  of 16 by 12 the car with x1 = 1 - 2^-24 and x2 = 11 meets the ROI and has its
  centre in column 5, where the median depth of the falling map is 601; but x1 + x2
  is rounded to 12 in float32, the code samples around column 6 and reads 600, which
  is not above the threshold. Both frames update the collision counter with false,
  and no alert is shown after the second.
\<close>

theorem collision_alert_after_two_frames_counterexample:
  "spec_known_classes names_example [Some [edge_car_11]]
   \<and> spec_finite_center edge_car_11
   \<and> spec_exact_collides (falling_map 605) 16 12 edge_car_11
   \<and> process_frame names_example init_WarningSystem [Some [edge_car_11]]
       (Some (falling_map 605)) 16 12
     = Inr (update_collision_persistence
              (update_warning_persistence init_WarningSystem [] []) False)
   \<and> process_frame names_example
       (update_collision_persistence (update_warning_persistence init_WarningSystem [] []) False)
       [Some [edge_car_11]] (Some (falling_map 605)) 16 12
     = Inr (update_collision_persistence
              (update_warning_persistence init_WarningSystem [] []) False)
   \<and> \<not> should_show_collision_alert
         (update_collision_persistence
            (update_warning_persistence init_WarningSystem [] []) False)"
proof -
  have k: "spec_known_classes names_example [Some [edge_car_11]]"
    by (simp add: spec_known_classes_def detections_of_def names_example_def edge_car_11_def)
  have k': "\<forall>b \<in> set (detections_of [Some [edge_car_11]]). cls b \<in> dom names_example"
    using k by (simp add: spec_known_classes_def)
  have n: "spec_nonempty (falling_map 605)"
    by (simp add: spec_nonempty_def falling_map_def)
  have r: "0 < shape0 (falling_map 605)" and c: "0 < shape1 (falling_map 605)"
    by (simp_all add: falling_map_def)
  have f: "\<forall>b \<in> set (detections_of [Some [edge_car_11]]).
             spec_road_relevant b \<longrightarrow> spec_finite_center b"
    and f': "\<forall>b \<in> set (detections_of [Some [edge_car_11]]).
             spec_road_relevant b \<and> is_in_collision_roi (x1 b) (y1 b) (x2 b) (y2 b) 16 12
             \<longrightarrow> spec_finite_center b"
    by (simp_all add: detections_of_def finite_center_examples)
  have a: "spec_exact_collides (falling_map 605) 16 12 edge_car_11"
    by (simp add: spec_exact_collides_def spec_exact_depth_above_def road_relevant_examples
        roi_examples center_examples n DEPTH_COLLISION_SAMPLE_SIZE_def COLLISION_THRESHOLD_def
        median_above_sloping)
  have nc: "\<not> spec_collides (falling_map 605) 16 12 edge_car_11"
    by (simp add: spec_collides_def spec_depth_above_def center_examples
        DEPTH_COLLISION_SAMPLE_SIZE_def COLLISION_THRESHOLD_def median_above_sloping)
  have far: "\<not> spec_median_above (spec_samples (falling_map 605) 6 9 5) 1200"
    by code_simp
  have ncl: "\<not> spec_close (falling_map 605) edge_car_11"
    using far
    by (simp add: spec_close_def spec_depth_above_def center_examples CLOSE_DEPTH_THRESHOLD_def)
  have g: "get_close_vehicles_by_side [Some [edge_car_11]] (Some (falling_map 605)) 16
             names_example = Inr ([], [])"
    unfolding get_close_vehicles_by_side_def close_vehicles_results_depth[OF k' r c f]
    by (simp add: detections_of_def ncl)
  have ch: "check_collision_alert [Some [edge_car_11]] (Some (falling_map 605)) 16 12
              names_example = Inr False"
    unfolding check_collision_alert_def collision_results_depth[OF k' r c f']
    by (simp add: detections_of_def nc)
  have u: "update_collision_persistence
             (update_warning_persistence init_WarningSystem [] []) False = init_WarningSystem"
    by (simp add: update_warning_persistence_def update_collision_persistence_def
        init_WarningSystem_def)
  have p: "process_frame names_example init_WarningSystem [Some [edge_car_11]]
       (Some (falling_map 605)) 16 12 = Inr init_WarningSystem"
    by (simp add: process_frame_def g ch Let_def u)
  have s: "\<not> should_show_collision_alert init_WarningSystem"
    by (simp add: should_show_collision_alert_def init_fields)
  from k finite_center_examples(3) a p s show ?thesis
    unfolding u by simp
qed

end
